theory Spec2Isabelle
  imports Complex_Main
begin

section \<open>Errors\<close>

text \<open>
  The exceptions that the modelled notebook code can end in. \<open>AssertionError\<close> comes from
  the \<^verbatim>\<open>assert\<close> statements written in the notebooks, \<open>ValueError\<close> from the
  \<^verbatim>\<open>raise ValueError(...)\<close> of \<^verbatim>\<open>RNNModel.__init__\<close>. \<open>ValueError_range\<close> is the
  ValueError of the built-in \<^verbatim>\<open>range\<close> for a step of 0;
  \<open>KeyError\<close>, \<open>IndexError\<close>, \<open>ZeroDivisionError\<close> and \<open>UnboundLocalError\<close> are raised by the
  Python runtime.
\<close>

datatype error =
    AssertionError
  | ValueError string
  | ValueError_range
  | KeyError string
  | IndexError
  | ZeroDivisionError
  | UnboundLocalError

section \<open>The vocabulary: class Dictionary\<close>

text \<open>
  \<^verbatim>\<open>
  class Dictionary(object):
      def __init__(self):
          self.word2idx = {}
          self.idx2word = []
      def add_word(self, word):
          if word not in self.word2idx:
              self.idx2word.append(word)
              self.word2idx[word] = len(self.idx2word) - 1
          return self.word2idx[word]
      def __len__(self):
          return len(self.idx2word)
  \<close>
  The object is a record of its two fields; \<open>add_word\<close> returns the updated object
  together with the returned index.
\<close>

record dictionary =
  word2idx :: "string \<rightharpoonup> nat"
  idx2word :: "string list"

definition Dictionary_init :: dictionary where
  "Dictionary_init = \<lparr>word2idx = Map.empty, idx2word = []\<rparr>"

definition add_word :: "dictionary \<Rightarrow> string \<Rightarrow> dictionary \<times> nat" where
  "add_word d word =
     (case word2idx d word of
        None \<Rightarrow>
          (let ws = idx2word d @ [word];
               d' = \<lparr>word2idx = (word2idx d)(word \<mapsto> length ws - 1), idx2word = ws\<rparr>
           in (d', length ws - 1))
      | Some i \<Rightarrow> (d, i))"

definition len_dictionary :: "dictionary \<Rightarrow> nat" where
  "len_dictionary d = length (idx2word d)"

text \<open>A sequence of \<open>add_word\<close> calls on one object, the returned indices dropped.\<close>

fun add_words :: "dictionary \<Rightarrow> string list \<Rightarrow> dictionary" where
  "add_words d [] = d"
| "add_words d (w # ws) = add_words (fst (add_word d w)) ws"

text \<open>The invariant that ties the two fields together.\<close>

definition dict_inv :: "dictionary \<Rightarrow> bool" where
  "dict_inv d \<longleftrightarrow>
     distinct (idx2word d) \<and>
     dom (word2idx d) = set (idx2word d) \<and>
     (\<forall>i < length (idx2word d). word2idx d (idx2word d ! i) = Some i)"

section \<open>The framework's array operations\<close>

text \<open>
  Every numerical primitive is a call into the tensor library (\<^verbatim>\<open>mxnet.ndarray\<close>), which is
  not part of the repository. The notebook functions are therefore modelled over an arbitrary
  array type \<open>'a\<close> and a record of the library operations they call; what is proved about
  them holds for whatever the library computes. The operations are total: an exception of
  the library itself (arrays whose shapes do not fit) is outside the model. Python floats
  that are passed as scalars (\<^verbatim>\<open>temperature\<close>, \<^verbatim>\<open>lr\<close>, \<^verbatim>\<open>len(outputs)\<close>) are reals.

  \<^item> \<open>nd_dot\<close> is \<^verbatim>\<open>nd.dot\<close>; \<open>nd_add\<close>, \<open>nd_sub\<close>, \<open>nd_mul\<close>, \<open>nd_div\<close> are
    \<^verbatim>\<open>+ - * /\<close> between two arrays (broadcasting included);
  \<^item> \<open>nd_div_scalar a s\<close> is \<^verbatim>\<open>a / s\<close>, \<open>nd_rsub_scalar s a\<close> is \<^verbatim>\<open>s - a\<close>,
    \<open>nd_rmul_scalar s a\<close> is \<^verbatim>\<open>s * a\<close> for a Python number \<open>s\<close>; \<open>nd_neg\<close> is unary minus;
  \<^item> \<open>nd_sum_rows\<close> is \<^verbatim>\<open>nd.sum(_, axis=0, exclude=True)\<close>, \<open>nd_reshape_col\<close> is
    \<^verbatim>\<open>_.reshape((-1,1))\<close>, \<open>nd_array0\<close> is \<^verbatim>\<open>nd.array([0.], ctx=ctx)\<close>.
\<close>

record 'a nd_ops =
  nd_dot :: "'a \<Rightarrow> 'a \<Rightarrow> 'a"
  nd_add :: "'a \<Rightarrow> 'a \<Rightarrow> 'a"
  nd_sub :: "'a \<Rightarrow> 'a \<Rightarrow> 'a"
  nd_mul :: "'a \<Rightarrow> 'a \<Rightarrow> 'a"
  nd_div :: "'a \<Rightarrow> 'a \<Rightarrow> 'a"
  nd_div_scalar :: "'a \<Rightarrow> real \<Rightarrow> 'a"
  nd_rsub_scalar :: "real \<Rightarrow> 'a \<Rightarrow> 'a"
  nd_rmul_scalar :: "real \<Rightarrow> 'a \<Rightarrow> 'a"
  nd_neg :: "'a \<Rightarrow> 'a"
  nd_tanh :: "'a \<Rightarrow> 'a"
  nd_sigmoid :: "'a \<Rightarrow> 'a"
  nd_exp :: "'a \<Rightarrow> 'a"
  nd_log :: "'a \<Rightarrow> 'a"
  nd_max :: "'a \<Rightarrow> 'a"
  nd_sum_rows :: "'a \<Rightarrow> 'a"
  nd_mean :: "'a \<Rightarrow> 'a"
  nd_reshape_col :: "'a \<Rightarrow> 'a"
  nd_array0 :: "'a"

text \<open>
  One instance, used to run the functions on concrete inputs: arrays of shape \<open>(1, 1)\<close>,
  that is single numbers, with exact arithmetic.
\<close>

definition scalar_ops :: "real nd_ops" where
  "scalar_ops = \<lparr>
     nd_dot = (*), nd_add = (+), nd_sub = (-), nd_mul = (*), nd_div = (/),
     nd_div_scalar = (/), nd_rsub_scalar = (-), nd_rmul_scalar = (*), nd_neg = uminus,
     nd_tanh = tanh, nd_sigmoid = (\<lambda>x. 1 / (1 + exp (- x))), nd_exp = exp, nd_log = ln,
     nd_max = id, nd_sum_rows = id, nd_mean = id, nd_reshape_col = id, nd_array0 = 0\<rparr>"

text \<open>
  A second instance: the library on two-dimensional arrays, an array being the list of its
  rows, with exact arithmetic on reals. A one-dimensional array (a bias, the result of
  \<^verbatim>\<open>nd.sum\<close>) is an array of one row and the one-element result of \<^verbatim>\<open>nd.max\<close> an array
  of one row and one column. \<open>bcast\<close> is an elementwise operation with the library's
  broadcasting: an operand with a single row is used for every row, and a row with a single
  entry for every column. \<open>mat_dot\<close> is the matrix product.
\<close>

definition bcast_row :: "(real \<Rightarrow> real \<Rightarrow> real) \<Rightarrow> real list \<Rightarrow> real list \<Rightarrow> real list" where
  "bcast_row f r s =
     (if length s = 1 then map (\<lambda>x. f x (hd s)) r
      else if length r = 1 then map (\<lambda>y. f (hd r) y) s
      else map2 f r s)"

definition bcast ::
  "(real \<Rightarrow> real \<Rightarrow> real) \<Rightarrow> real list list \<Rightarrow> real list list \<Rightarrow> real list list" where
  "bcast f A B =
     (if length B = 1 then map (\<lambda>r. bcast_row f r (hd B)) A
      else if length A = 1 then map (\<lambda>s. bcast_row f (hd A) s) B
      else map2 (bcast_row f) A B)"

definition mat_dot :: "real list list \<Rightarrow> real list list \<Rightarrow> real list list" where
  "mat_dot A B =
     map (\<lambda>r. map (\<lambda>j. sum_list (map2 (*) r (map (\<lambda>b. b ! j) B)))
                 [0..<(case B of [] \<Rightarrow> 0 | b # _ \<Rightarrow> length b)]) A"

definition matrix_ops :: "real list list nd_ops" where
  "matrix_ops = \<lparr>
     nd_dot = mat_dot,
     nd_add = bcast (+), nd_sub = bcast (-), nd_mul = bcast (*), nd_div = bcast (/),
     nd_div_scalar = (\<lambda>A s. map (map (\<lambda>x. x / s)) A),
     nd_rsub_scalar = (\<lambda>s A. map (map (\<lambda>x. s - x)) A),
     nd_rmul_scalar = (\<lambda>s A. map (map (\<lambda>x. s * x)) A),
     nd_neg = map (map uminus),
     nd_tanh = map (map tanh),
     nd_sigmoid = map (map (\<lambda>x. 1 / (1 + exp (- x)))),
     nd_exp = map (map exp),
     nd_log = map (map ln),
     nd_max = (\<lambda>A. [[Max (set (concat A))]]),
     nd_sum_rows = (\<lambda>A. [map sum_list A]),
     nd_mean = (\<lambda>A. [[sum_list (concat A) / real (length (concat A))]]),
     nd_reshape_col = (\<lambda>A. map (\<lambda>x. [x]) (concat A)),
     nd_array0 = [[0]]\<rparr>"

section \<open>The from-scratch recurrent networks\<close>

text \<open>
  \<^verbatim>\<open>
  def softmax(y_linear, temperature=1.0):
      lin = (y_linear-nd.max(y_linear)) / temperature
      exp = nd.exp(lin)
      partition =nd.sum(exp, axis=0, exclude=True).reshape((-1,1))
      return exp / partition
  \<close>
\<close>

definition softmax :: "'a nd_ops \<Rightarrow> 'a \<Rightarrow> real \<Rightarrow> 'a" where
  "softmax F y_linear temperature =
     (let lin = nd_div_scalar F (nd_sub F y_linear (nd_max F y_linear)) temperature;
          exp = nd_exp F lin;
          partition = nd_reshape_col F (nd_sum_rows F exp)
      in nd_div F exp partition)"

text \<open>
  The weights are global variables of the notebooks. The simple RNN has five, the GRU
  notebook the same five and six more (the bias \<^verbatim>\<open>by\<close> is the field \<open>b_y\<close>).
\<close>

record 'a rnn_params =
  Wxh :: 'a
  Whh :: 'a
  bh :: 'a
  Why :: 'a
  b_y :: 'a

record 'a gru_params = "'a rnn_params" +
  Wxz :: 'a
  Wxr :: 'a
  Whz :: 'a
  Whr :: 'a
  bz :: 'a
  br :: 'a

text \<open>
  \<^verbatim>\<open>
  def simple_rnn(inputs, state, temperature=1.0):
      outputs = []
      h = state
      for X in inputs:
          h_linear = nd.dot(X, Wxh) + nd.dot(h, Whh) + bh
          h = nd.tanh(h_linear)
          yhat_linear = nd.dot(h, Why) + by
          yhat = softmax(yhat_linear, temperature=temperature)
          outputs.append(yhat)
      return (outputs, h)
  \<close>
  The loop carries \<open>outputs\<close> and \<open>h\<close>.
\<close>

fun simple_rnn_loop ::
  "'a nd_ops \<Rightarrow> ('a, 'm) rnn_params_scheme \<Rightarrow> real \<Rightarrow> 'a list \<Rightarrow> 'a list \<Rightarrow> 'a \<Rightarrow> 'a list \<times> 'a" where
  "simple_rnn_loop F P temperature [] outputs h = (outputs, h)"
| "simple_rnn_loop F P temperature (X # inputs) outputs h =
     (let h_linear = nd_add F (nd_add F (nd_dot F X (Wxh P)) (nd_dot F h (Whh P))) (bh P);
          h = nd_tanh F h_linear;
          yhat_linear = nd_add F (nd_dot F h (Why P)) (b_y P);
          yhat = softmax F yhat_linear temperature
      in simple_rnn_loop F P temperature inputs (outputs @ [yhat]) h)"

definition simple_rnn ::
  "'a nd_ops \<Rightarrow> ('a, 'm) rnn_params_scheme \<Rightarrow> 'a list \<Rightarrow> 'a \<Rightarrow> real \<Rightarrow> 'a list \<times> 'a" where
  "simple_rnn F P inputs state temperature = simple_rnn_loop F P temperature inputs [] state"

text \<open>
  \<^verbatim>\<open>
  def gru_rnn(inputs, h, temperature=1.0):
      outputs = []
      for X in inputs:
          z = nd.sigmoid(nd.dot(X, Wxz) + nd.dot(h, Whz) + bz)
          r = nd.sigmoid(nd.dot(X, Wxr) + nd.dot(h, Whr) + br)
          h = z * h + (1 - z) * nd.tanh(nd.dot(X, Wxh) + nd.dot(r * h, Whh) + bh)
          yhat_linear = nd.dot(h, Why) + by
          yhat = softmax(yhat_linear, temperature=temperature)
          outputs.append(yhat)
      return (outputs, h)
  \<close>
\<close>

fun gru_rnn_loop ::
  "'a nd_ops \<Rightarrow> 'a gru_params \<Rightarrow> real \<Rightarrow> 'a list \<Rightarrow> 'a list \<Rightarrow> 'a \<Rightarrow> 'a list \<times> 'a" where
  "gru_rnn_loop F P temperature [] outputs h = (outputs, h)"
| "gru_rnn_loop F P temperature (X # inputs) outputs h =
     (let z = nd_sigmoid F (nd_add F (nd_add F (nd_dot F X (Wxz P)) (nd_dot F h (Whz P))) (bz P));
          r = nd_sigmoid F (nd_add F (nd_add F (nd_dot F X (Wxr P)) (nd_dot F h (Whr P))) (br P));
          h = nd_add F (nd_mul F z h)
                (nd_mul F (nd_rsub_scalar F 1 z)
                   (nd_tanh F (nd_add F (nd_add F (nd_dot F X (Wxh P))
                                                   (nd_dot F (nd_mul F r h) (Whh P))) (bh P))));
          yhat_linear = nd_add F (nd_dot F h (Why P)) (b_y P);
          yhat = softmax F yhat_linear temperature
      in gru_rnn_loop F P temperature inputs (outputs @ [yhat]) h)"

definition gru_rnn :: "'a nd_ops \<Rightarrow> 'a gru_params \<Rightarrow> 'a list \<Rightarrow> 'a \<Rightarrow> real \<Rightarrow> 'a list \<times> 'a" where
  "gru_rnn F P inputs h temperature = gru_rnn_loop F P temperature inputs [] h"

text \<open>
  The recurrence equations as the notebooks' text states them, indexed by the time step:
  \<open>rnn_h \<dots> t\<close> is \<open>h\<^sub>t\<close> with \<open>h\<^sub>0\<close> the initial state and \<open>X ! t\<close> the input of step
  \<open>t + 1\<close>; \<open>yhat_of\<close> is \<open>softmax(h W\<^sub>h\<^sub>y + b\<^sub>y)\<close>.
\<close>

fun rnn_h :: "'a nd_ops \<Rightarrow> ('a, 'm) rnn_params_scheme \<Rightarrow> 'a list \<Rightarrow> 'a \<Rightarrow> nat \<Rightarrow> 'a" where
  "rnn_h F P X h0 0 = h0"
| "rnn_h F P X h0 (Suc t) =
     nd_tanh F (nd_add F (nd_add F (nd_dot F (X ! t) (Wxh P))
                                    (nd_dot F (rnn_h F P X h0 t) (Whh P))) (bh P))"

definition gru_z :: "'a nd_ops \<Rightarrow> 'a gru_params \<Rightarrow> 'a \<Rightarrow> 'a \<Rightarrow> 'a" where
  "gru_z F P X h = nd_sigmoid F (nd_add F (nd_add F (nd_dot F X (Wxz P)) (nd_dot F h (Whz P))) (bz P))"

definition gru_r :: "'a nd_ops \<Rightarrow> 'a gru_params \<Rightarrow> 'a \<Rightarrow> 'a \<Rightarrow> 'a" where
  "gru_r F P X h = nd_sigmoid F (nd_add F (nd_add F (nd_dot F X (Wxr P)) (nd_dot F h (Whr P))) (br P))"

fun gru_h :: "'a nd_ops \<Rightarrow> 'a gru_params \<Rightarrow> 'a list \<Rightarrow> 'a \<Rightarrow> nat \<Rightarrow> 'a" where
  "gru_h F P X h0 0 = h0"
| "gru_h F P X h0 (Suc t) =
     nd_add F (nd_mul F (gru_z F P (X ! t) (gru_h F P X h0 t)) (gru_h F P X h0 t))
       (nd_mul F (nd_rsub_scalar F 1 (gru_z F P (X ! t) (gru_h F P X h0 t)))
          (nd_tanh F (nd_add F (nd_add F (nd_dot F (X ! t) (Wxh P))
             (nd_dot F (nd_mul F (gru_r F P (X ! t) (gru_h F P X h0 t)) (gru_h F P X h0 t)) (Whh P)))
             (bh P))))"

definition yhat_of :: "'a nd_ops \<Rightarrow> ('a, 'm) rnn_params_scheme \<Rightarrow> real \<Rightarrow> 'a \<Rightarrow> 'a" where
  "yhat_of F P temperature h = softmax F (nd_add F (nd_dot F h (Why P)) (b_y P)) temperature"

text \<open>
  The softmax function itself, on the rows of an array:
  \<open>softmax(y)\<^sub>i\<^sub>j = exp(y\<^sub>i\<^sub>j) / (exp(y\<^sub>i\<^sub>1) + \<dots> + exp(y\<^sub>i\<^sub>n))\<close>.
\<close>

definition std_softmax :: "real list list \<Rightarrow> real list list" where
  "std_softmax y = map (\<lambda>r. map (\<lambda>x. exp x / sum_list (map exp r)) r) y"

text \<open>
  Weights for two inputs, one hidden unit and two outputs; the gates of the GRU have zero
  weights, so that \<open>z = r = 1/2\<close>.
\<close>

definition small_weights :: "real list list gru_params" where
  "small_weights = \<lparr>Wxh = [[1], [2]], Whh = [[0]], bh = [[0]], Why = [[1, 0]], b_y = [[0, 0]],
                     Wxz = [[0], [0]], Wxr = [[0], [0]], Whz = [[0]], Whr = [[0]],
                     bz = [[0]], br = [[0]]\<rparr>"

section \<open>Loss and optimizer of the from-scratch notebooks\<close>




text \<open>
  \<^verbatim>\<open>
  def SGD(params, lr):
      for param in params:
          param[:] = param - lr * param.grad
  \<close>
  \<^verbatim>\<open>param[:] = ...\<close> writes into the array object that the list element refers to, and a
  Python list may hold the same object twice. The arrays therefore live in a store: an
  address refers to an array (\<open>val\<close>) with the gradient buffer (\<open>grad\<close>) attached to it by
  \<^verbatim>\<open>attach_grad()\<close>, and \<open>params\<close> is a list of addresses.
\<close>

record 'a ndarray =
  val :: 'a
  grad :: 'a

type_synonym 'a store = "nat \<Rightarrow> 'a ndarray"

fun SGD :: "'a nd_ops \<Rightarrow> nat list \<Rightarrow> real \<Rightarrow> 'a store \<Rightarrow> 'a store" where
  "SGD F [] lr st = st"
| "SGD F (param # params) lr st =
     SGD F params lr
       (st(param := (st param)\<lparr>val :=
          nd_sub F (val (st param)) (nd_rmul_scalar F lr (grad (st param)))\<rparr>))"

text \<open>A store with one array of value 1 and gradient 1 at every address.\<close>

definition ones_store :: "real store" where
  "ones_store = (\<lambda>_. \<lparr>val = 1, grad = 1\<rparr>)"

section \<open>The training loop of the from-scratch notebooks\<close>

text \<open>
  \<^verbatim>\<open>
  learning_rate = .5          # 2.0 in the GRU notebook
  for e in range(epochs):
      if ((e+1) % 100 == 0):
          learning_rate = learning_rate / 2.0
      state = nd.zeros(shape=(batch_size, num_hidden), ctx=ctx)
      for i, (data, label) in enumerate(zip(training_data, training_labels)):
          ...
          SGD(params, learning_rate)
          ...
      print(...)
  \<close>
  After the \<^verbatim>\<open>if\<close>, the rest of the iteration reads \<^verbatim>\<open>learning_rate\<close> (in the calls
  of \<open>SGD\<close>) and the epoch number and never assigns either. It is the parameter
  \<open>epoch_body\<close>: a function of the rate, the epoch number and the program state (weights,
  moving loss, output so far) that returns the new state, or the exception that ends the
  run. Halving a binary float is exact (short of underflow), so the rate is a real.
\<close>

fun training_loop ::
  "(real \<Rightarrow> nat \<Rightarrow> 's \<Rightarrow> error + 's) \<Rightarrow> nat list \<Rightarrow> real \<Rightarrow> 's \<Rightarrow> error + (real \<times> 's)" where
  "training_loop epoch_body [] learning_rate s = Inr (learning_rate, s)"
| "training_loop epoch_body (e # es) learning_rate s =
     (let learning_rate = (if (e + 1) mod 100 = 0 then learning_rate / 2 else learning_rate)
      in case epoch_body learning_rate e s of
           Inl err \<Rightarrow> Inl err
         | Inr s' \<Rightarrow> training_loop epoch_body es learning_rate s')"

definition train_scratch ::
  "(real \<Rightarrow> nat \<Rightarrow> 's \<Rightarrow> error + 's) \<Rightarrow> nat \<Rightarrow> real \<Rightarrow> 's \<Rightarrow> error + (real \<times> 's)" where
  "train_scratch epoch_body epochs learning_rate s =
     training_loop epoch_body [0..<epochs] learning_rate s"

text \<open>
  The same run with the rate of every epoch given by a function of the epoch number: the
  form in which the decay schedule is stated.
\<close>

fun run_with_schedule ::
  "(real \<Rightarrow> nat \<Rightarrow> 's \<Rightarrow> error + 's) \<Rightarrow> (nat \<Rightarrow> real) \<Rightarrow> nat list \<Rightarrow> 's \<Rightarrow> error + 's" where
  "run_with_schedule epoch_body rate [] s = Inr s"
| "run_with_schedule epoch_body rate (e # es) s =
     (case epoch_body (rate e) e s of
        Inl err \<Rightarrow> Inl err
      | Inr s' \<Rightarrow> run_with_schedule epoch_body rate es s')"

text \<open>An epoch body that only records the epoch number and the rate it was given.\<close>

definition record_rate :: "real \<Rightarrow> nat \<Rightarrow> (nat \<times> real) list \<Rightarrow> error + (nat \<times> real) list" where
  "record_rate lr e seen = Inr (seen @ [(e, lr)])"

section \<open>One-hot encoding and decoding\<close>

text \<open>
  \<^verbatim>\<open>
  def one_hots(numerical_list, vocab_size=vocab_size):
      result = []
      for idx in numerical_list:
          array = nd.zeros(shape=(1, vocab_size), ctx=ctx)
          array[0, idx] = 1.0
          result.append(array)
      return result
  \<close>
  An array of shape \<open>(1, vocab_size)\<close> is a list of one row. The values written are the
  floats 0.0 and 1.0, which are exact. An index outside \<open>[0, vocab_size)\<close> is left to the
  library's indexing, which is not modelled: the result is \<open>None\<close> there.
\<close>

fun one_hots :: "int list \<Rightarrow> nat \<Rightarrow> real list list list option" where
  "one_hots [] vocab_size = Some []"
| "one_hots (idx # numerical_list) vocab_size =
     (if 0 \<le> idx \<and> idx < int vocab_size then
        (case one_hots numerical_list vocab_size of
           None \<Rightarrow> None
         | Some result \<Rightarrow> Some ([(replicate vocab_size 0)[nat idx := 1]] # result))
      else None)"

text \<open>
  \<^verbatim>\<open>
  def textify(vector_list):
      result = ""
      for vector in vector_list:
          vector = vector[0]
          result += character_list[int(nd.argmax(vector, axis=0).asscalar())]
      return result
  \<close>
  \<open>nd_argmax\<close> is the position of the first largest entry. The library returns it as an
  array of 32-bit floats, \<^verbatim>\<open>asscalar\<close> gives that float and \<^verbatim>\<open>int\<close> the index that is
  used: \<open>float32_of_nat\<close> is the position rounded to the nearest float with a significand of
  24 bits (ties to even). It is the position itself up to \<open>2 ^ 24\<close>; \<open>float32_ulp n\<close> is the
  distance between neighbouring floats at \<open>n\<close>. (Positions near \<open>2 ^ 128\<close>, where the float
  overflows, are beyond the length of any list.) An array without a row or with an empty
  row is again left to the library (\<open>None\<close>); \<^verbatim>\<open>character_list[k]\<close> with \<open>k\<close> past the end
  raises IndexError, also \<open>None\<close> here.
\<close>

function float32_ulp :: "nat \<Rightarrow> nat" where
  "float32_ulp n = (if n < 2 ^ 24 then 1 else 2 * float32_ulp (n div 2))"
  by pat_completeness auto
termination
  by (relation "measure id") auto

declare float32_ulp.simps [simp del]

definition float32_of_nat :: "nat \<Rightarrow> nat" where
  "float32_of_nat n =
     (let u = float32_ulp n; q = n div u; r = n mod u
      in if 2 * r < u then q * u
         else if u < 2 * r then (q + 1) * u
         else if even q then q * u else (q + 1) * u)"

definition nd_argmax :: "real list \<Rightarrow> nat" where
  "nd_argmax v = length (takeWhile (\<lambda>x. x \<noteq> Max (set v)) v)"

fun textify :: "string \<Rightarrow> real list list list \<Rightarrow> string option" where
  "textify character_list [] = Some []"
| "textify character_list (vector # vector_list) =
     (case vector of
        [] \<Rightarrow> None
      | v # _ \<Rightarrow>
          (if v = [] \<or> length character_list \<le> float32_of_nat (nd_argmax v) then None
           else (case textify character_list vector_list of
                   None \<Rightarrow> None
                 | Some result \<Rightarrow>
                     Some (character_list ! float32_of_nat (nd_argmax v) # result))))"

text \<open>
  \<^verbatim>\<open>
  character_list = list(set(time_machine))
  vocab_size = len(character_list)
  character_dict = {}
  for e, char in enumerate(character_list):
      character_dict[char] = e
  time_numerical = [character_dict[char] for char in time_machine]
  \<close>
  \<open>character_list\<close> comes from a set of characters, so it has no repetition, in an order
  the program does not choose: it is a parameter. Python has 1114112 characters, so the
  list has at most that many entries, fewer than \<open>2 ^ 24\<close>. A character without an entry
  raises KeyError.
\<close>

fun character_dict_loop :: "(char \<rightharpoonup> nat) \<Rightarrow> nat \<Rightarrow> string \<Rightarrow> (char \<rightharpoonup> nat)" where
  "character_dict_loop character_dict e [] = character_dict"
| "character_dict_loop character_dict e (char # rest) =
     character_dict_loop (character_dict(char \<mapsto> e)) (Suc e) rest"

definition character_dict :: "string \<Rightarrow> (char \<rightharpoonup> nat)" where
  "character_dict character_list = character_dict_loop Map.empty 0 character_list"

fun numerical :: "(char \<rightharpoonup> nat) \<Rightarrow> string \<Rightarrow> error + int list" where
  "numerical cd [] = Inr []"
| "numerical cd (char # text) =
     (case cd char of
        None \<Rightarrow> Inl (KeyError [char])
      | Some e \<Rightarrow> (case numerical cd text of Inl err \<Rightarrow> Inl err | Inr r \<Rightarrow> Inr (int e # r)))"

section \<open>The corpus: class Corpus\<close>












section \<open>Batches of the language model\<close>

text \<open>
  A two-dimensional array is its shape with its entries in row-major order; entry
  \<open>(i, j)\<close> is at position \<open>i * ncols + j\<close>. \<open>reshape2\<close> is \<^verbatim>\<open>reshape((r, c))\<close> of a flat
  array of \<open>r * c\<close> entries and \<open>nd_T\<close> is \<^verbatim>\<open>.T\<close>.
\<close>

record 'a array2 =
  nrows :: nat
  ncols :: nat
  elems :: "'a list"

definition wf_array2 :: "'a array2 \<Rightarrow> bool" where
  "wf_array2 A \<longleftrightarrow> length (elems A) = nrows A * ncols A"

definition entry :: "'a array2 \<Rightarrow> nat \<Rightarrow> nat \<Rightarrow> 'a" where
  "entry A i j = elems A ! (i * ncols A + j)"

definition row :: "'a array2 \<Rightarrow> nat \<Rightarrow> 'a list" where
  "row A i = map (\<lambda>j. entry A i j) [0..<ncols A]"

definition column :: "'a array2 \<Rightarrow> nat \<Rightarrow> 'a list" where
  "column A j = map (\<lambda>i. entry A i j) [0..<nrows A]"

definition reshape2 :: "nat \<times> nat \<Rightarrow> 'a list \<Rightarrow> 'a array2" where
  "reshape2 shape xs = \<lparr>nrows = fst shape, ncols = snd shape, elems = xs\<rparr>"

definition nd_T :: "'a array2 \<Rightarrow> 'a array2" where
  "nd_T A = \<lparr>nrows = ncols A, ncols = nrows A,
            elems = map (\<lambda>k. entry A (k mod nrows A) (k div nrows A)) [0..<ncols A * nrows A]\<rparr>"

text \<open>
  \<^verbatim>\<open>
  def batchify(data, batch_size):
      nbatch = data.shape[0] // batch_size
      data = data[:nbatch * batch_size]
      data = data.reshape((batch_size, nbatch)).T
      return data
  \<close>
  \<^verbatim>\<open>//\<close> by zero raises ZeroDivisionError. With fewer than \<open>batch_size\<close> tokens the arrays
  have no entries; what the library does with those is not modelled, the model computes the
  empty array.
\<close>

definition batchify :: "'a list \<Rightarrow> nat \<Rightarrow> error + 'a array2" where
  "batchify data batch_size =
     (if batch_size = 0 then Inl ZeroDivisionError
      else (let nbatch = length data div batch_size;
                data = take (nbatch * batch_size) data;
                data = nd_T (reshape2 (batch_size, nbatch) data)
            in Inr data))"

text \<open>The settings of the notebook that the functions below read.\<close>

record args =
  args_bptt :: nat
  args_batch_size :: nat
  args_log_interval :: nat
  args_epochs :: nat

definition notebook_args :: args where
  "notebook_args = \<lparr>args_bptt = 35, args_batch_size = 32, args_log_interval = 100, args_epochs = 2\<rparr>"

text \<open>
  \<^verbatim>\<open>
  def get_batch(source, i):
      seq_len = min(args_bptt, source.shape[0] - 1 - i)
      data = source[i : i + seq_len]
      target = source[i + 1 : i + 1 + seq_len]
      return data, target.reshape((-1,))
  \<close>
  \<open>rows_slice A lo hi\<close> is \<^verbatim>\<open>A[lo : hi]\<close> for \<open>0 \<le> lo\<close>, \<open>0 \<le> hi\<close>, with Python's clipping of
  the bounds. For \<open>i \<ge> source.shape[0] - 1\<close> Python's \<open>seq_len\<close> is zero or negative and both
  slices are empty; the subtraction on \<open>nat\<close> stops at zero and gives the same empty slices.
\<close>

definition rows_slice :: "'a array2 \<Rightarrow> nat \<Rightarrow> nat \<Rightarrow> 'a array2" where
  "rows_slice A lo hi =
     (let hi = min hi (nrows A); lo = min lo hi
      in \<lparr>nrows = hi - lo, ncols = ncols A,
          elems = take ((hi - lo) * ncols A) (drop (lo * ncols A) (elems A))\<rparr>)"

definition seq_len_of :: "args \<Rightarrow> 'a array2 \<Rightarrow> nat \<Rightarrow> nat" where
  "seq_len_of a source i = min (args_bptt a) (nrows source - 1 - i)"

definition get_batch :: "args \<Rightarrow> 'a array2 \<Rightarrow> nat \<Rightarrow> 'a array2 \<times> 'a list" where
  "get_batch a source i =
     (let seq_len = seq_len_of a source i;
          data = rows_slice source i (i + seq_len);
          target = rows_slice source (i + 1) (i + 1 + seq_len)
      in (data, elems target))"

section \<open>Evaluation and training of the language model\<close>

text \<open>
  \<open>py_range n step\<close> is \<^verbatim>\<open>range(0, n, step)\<close> for \<open>step > 0\<close>.
\<close>

definition py_range :: "nat \<Rightarrow> nat \<Rightarrow> nat list" where
  "py_range n step = map (\<lambda>k. k * step) [0..<(n + step - 1) div step]"

text \<open>
  \<^verbatim>\<open>
  def eval(data_source):
      total_L = 0.0
      ntotal = 0
      hidden = model.begin_state(func = mx.nd.zeros, batch_size = args_batch_size, ctx=context)
      for i in range(0, data_source.shape[0] - 1, args_bptt):
          data, target = get_batch(data_source, i)
          output, hidden = model(data, hidden)
          L = loss(output, target)
          total_L += mx.nd.sum(L).asscalar()
          ntotal += L.size
      return total_L / ntotal
  \<close>
  The network and the loss are library objects. \<open>net m hidden data target\<close> stands for
  \<^verbatim>\<open>model(data, hidden)\<close> followed by \<^verbatim>\<open>loss(output, target)\<close> under the weights \<open>m\<close>: it
  gives the array \<open>L\<close> of the losses, one for each prediction, and the new hidden state.
  \<open>hidden0\<close> is \<^verbatim>\<open>model.begin_state(...)\<close>. Sums of losses are reals. The function is
  \<open>eval_loss\<close> here.
\<close>

fun eval_loop ::
  "('m \<Rightarrow> 'h \<Rightarrow> 'a array2 \<Rightarrow> 'a list \<Rightarrow> real list \<times> 'h) \<Rightarrow> args \<Rightarrow> 'm \<Rightarrow> 'a array2 \<Rightarrow>
   nat list \<Rightarrow> real \<Rightarrow> nat \<Rightarrow> 'h \<Rightarrow> real \<times> nat" where
  "eval_loop net a m data_source [] total_L ntotal hidden = (total_L, ntotal)"
| "eval_loop net a m data_source (i # rest) total_L ntotal hidden =
     (let (data, target) = get_batch a data_source i;
          (L, hidden) = net m hidden data target
      in eval_loop net a m data_source rest (total_L + sum_list L) (ntotal + length L) hidden)"

definition eval_loss ::
  "('m \<Rightarrow> 'h \<Rightarrow> 'a array2 \<Rightarrow> 'a list \<Rightarrow> real list \<times> 'h) \<Rightarrow> args \<Rightarrow> 'm \<Rightarrow> 'h \<Rightarrow> 'a array2 \<Rightarrow>
   error + real" where
  "eval_loss net a m hidden0 data_source =
     (if args_bptt a = 0 then Inl ValueError_range
      else (let (total_L, ntotal) =
                  eval_loop net a m data_source
                    (py_range (nrows data_source - 1) (args_bptt a)) 0 0 hidden0
            in if ntotal = 0 then Inl ZeroDivisionError else Inr (total_L / real ntotal)))"

text \<open>
  The losses of all predictions of one evaluation, batch after batch: the numbers whose
  average is the negative log-likelihood per prediction.
\<close>

fun batch_losses ::
  "('m \<Rightarrow> 'h \<Rightarrow> 'a array2 \<Rightarrow> 'a list \<Rightarrow> real list \<times> 'h) \<Rightarrow> args \<Rightarrow> 'm \<Rightarrow> 'a array2 \<Rightarrow>
   nat list \<Rightarrow> 'h \<Rightarrow> real list" where
  "batch_losses net a m data_source [] hidden = []"
| "batch_losses net a m data_source (i # rest) hidden =
     (let (data, target) = get_batch a data_source i;
          (L, hidden) = net m hidden data target
      in L @ batch_losses net a m data_source rest hidden)"

text \<open>
  \<^verbatim>\<open>
  def train():
      best_val = float("Inf")
      for epoch in range(args_epochs):
          total_L = 0.0
          start_time = time.time()
          hidden = model.begin_state(func = mx.nd.zeros, batch_size = args_batch_size, ctx = context)
          for ibatch, i in enumerate(range(0, train_data.shape[0] - 1, args_bptt)):
              data, target = get_batch(train_data, i)
              hidden = detach(hidden)
              with autograd.record():
                  output, hidden = model(data, hidden)
                  L = loss(output, target)
                  L.backward()
              grads = [i.grad(context) for i in model.collect_params().values()]
              gluon.utils.clip_global_norm(grads, args_clip * args_bptt * args_batch_size)
              trainer.step(args_batch_size)
              total_L += mx.nd.sum(L).asscalar()
              if ibatch % args_log_interval == 0 and ibatch > 0:
                  cur_L = total_L / args_bptt / args_batch_size / args_log_interval
                  print('[Epoch %d Batch %d] loss %.2f, perplexity %.2f' % (
                      epoch + 1, ibatch, cur_L, math.exp(cur_L)))
                  total_L = 0.0
          val_L = eval(val_data)
          print('[Epoch %d] time cost %.2fs, validation loss %.2f, validation perplexity %.2f' % (
              epoch + 1, time.time() - start_time, val_L, math.exp(val_L)))
          if val_L < best_val:
              best_val = val_L
              test_L = eval(test_data)
              model.save_params(args_save)
              print('test loss %.2f, test perplexity %.2f' % (test_L, math.exp(test_L)))
          else:
              args_lr = args_lr * 0.25
              trainer._init_optimizer(...)
              model.load_params(args_save, context)
  \<close>
  A printed line is kept with the numbers it shows (before formatting, the time left out).
  \<open>step m hidden data target\<close> stands for the library calls of one iteration (forward pass,
  loss, backward pass, clipping, \<^verbatim>\<open>trainer.step\<close>): it gives the array \<open>L\<close>, the new
  hidden state and the updated weights; \<^verbatim>\<open>detach\<close> cuts the gradient history and leaves
  the values of the hidden state as they are. \<open>best_val\<close> is \<open>None\<close> while it is infinite. In the
  \<^verbatim>\<open>else\<close> branch \<^verbatim>\<open>args_lr\<close> is assigned inside the function, which makes it a local
  variable there, so reading it raises UnboundLocalError. A run returns the exception it
  ended in, if any, and the lines printed.
\<close>

datatype print_line =
    Batch_line nat nat real real
  | Epoch_line nat real real
  | Test_line real real

fun train_batches ::
  "('m \<Rightarrow> 'h \<Rightarrow> 'a array2 \<Rightarrow> 'a list \<Rightarrow> real list \<times> 'h \<times> 'm) \<Rightarrow> args \<Rightarrow> nat \<Rightarrow> 'a array2 \<Rightarrow>
   (nat \<times> nat) list \<Rightarrow> 'm \<Rightarrow> 'h \<Rightarrow> real \<Rightarrow> print_line list \<Rightarrow> error option \<times> 'm \<times> print_line list" where
  "train_batches step a epoch train_data [] m hidden total_L out = (None, m, out)"
| "train_batches step a epoch train_data ((ibatch, i) # rest) m hidden total_L out =
     (let (data, target) = get_batch a train_data i;
          (L, hidden, m) = step m hidden data target;
          total_L = total_L + sum_list L
      in if args_log_interval a = 0 then (Some ZeroDivisionError, m, out)
         else if ibatch mod args_log_interval a = 0 \<and> ibatch > 0 then
           (if args_bptt a = 0 \<or> args_batch_size a = 0 then (Some ZeroDivisionError, m, out)
            else (let cur_L = total_L / real (args_bptt a) / real (args_batch_size a)
                                / real (args_log_interval a)
                  in train_batches step a epoch train_data rest m hidden 0
                       (out @ [Batch_line (epoch + 1) ibatch cur_L (exp cur_L)])))
         else train_batches step a epoch train_data rest m hidden total_L out)"

fun train_epochs ::
  "('m \<Rightarrow> 'h \<Rightarrow> 'a array2 \<Rightarrow> 'a list \<Rightarrow> real list \<times> 'h \<times> 'm) \<Rightarrow>
   ('m \<Rightarrow> 'h \<Rightarrow> 'a array2 \<Rightarrow> 'a list \<Rightarrow> real list \<times> 'h) \<Rightarrow> args \<Rightarrow> 'h \<Rightarrow>
   'a array2 \<Rightarrow> 'a array2 \<Rightarrow> 'a array2 \<Rightarrow>
   nat list \<Rightarrow> 'm \<Rightarrow> real option \<Rightarrow> print_line list \<Rightarrow> error option \<times> print_line list" where
  "train_epochs step net a hidden0 train_data val_data test_data [] m best_val out = (None, out)"
| "train_epochs step net a hidden0 train_data val_data test_data (epoch # rest) m best_val out =
     (if args_bptt a = 0 then (Some ValueError_range, out)
      else
       (case train_batches step a epoch train_data
               (enumerate 0 (py_range (nrows train_data - 1) (args_bptt a))) m hidden0 0 out of
          (Some err, m, out) \<Rightarrow> (Some err, out)
        | (None, m, out) \<Rightarrow>
           (case eval_loss net a m hidden0 val_data of
              Inl err \<Rightarrow> (Some err, out)
            | Inr val_L \<Rightarrow>
               (let out = out @ [Epoch_line (epoch + 1) val_L (exp val_L)]
                in if (case best_val of None \<Rightarrow> True | Some b \<Rightarrow> val_L < b) then
                     (case eval_loss net a m hidden0 test_data of
                        Inl err \<Rightarrow> (Some err, out)
                      | Inr test_L \<Rightarrow>
                          train_epochs step net a hidden0 train_data val_data test_data rest m
                            (Some val_L) (out @ [Test_line test_L (exp test_L)]))
                   else (Some UnboundLocalError, out)))))"

definition train ::
  "('m \<Rightarrow> 'h \<Rightarrow> 'a array2 \<Rightarrow> 'a list \<Rightarrow> real list \<times> 'h \<times> 'm) \<Rightarrow>
   ('m \<Rightarrow> 'h \<Rightarrow> 'a array2 \<Rightarrow> 'a list \<Rightarrow> real list \<times> 'h) \<Rightarrow> args \<Rightarrow> 'h \<Rightarrow>
   'a array2 \<Rightarrow> 'a array2 \<Rightarrow> 'a array2 \<Rightarrow> 'm \<Rightarrow> error option \<times> print_line list" where
  "train step net a hidden0 train_data val_data test_data m =
     train_epochs step net a hidden0 train_data val_data test_data [0..<args_epochs a] m None []"

text \<open>
  A network whose loss is 1 for every prediction and whose weights never change, and an
  array of \<open>r\<close> rows and \<open>c\<close> columns that holds the token 0 everywhere.
\<close>

definition unit_loss_net :: "unit \<Rightarrow> unit \<Rightarrow> nat array2 \<Rightarrow> nat list \<Rightarrow> real list \<times> unit" where
  "unit_loss_net m hidden data target = (replicate (length target) 1, ())"

definition unit_loss_step :: "unit \<Rightarrow> unit \<Rightarrow> nat array2 \<Rightarrow> nat list \<Rightarrow> real list \<times> unit \<times> unit" where
  "unit_loss_step m hidden data target = (replicate (length target) 1, (), ())"

definition zeros_array :: "nat \<Rightarrow> nat \<Rightarrow> nat array2" where
  "zeros_array r c = \<lparr>nrows = r, ncols = c, elems = replicate (r * c) 0\<rparr>"

section \<open>Properties of the vocabulary\<close>

lemma dict_inv_init: "dict_inv Dictionary_init"
  by (simp add: dict_inv_def Dictionary_init_def)

lemma dict_inv_add_word:
  assumes "dict_inv d"
  shows "dict_inv (fst (add_word d w))"
proof (cases "word2idx d w")
  case (Some i)
  then show ?thesis using assms by (simp add: add_word_def)
next
  case None
  then have notin: "w \<notin> set (idx2word d)"
    using assms by (auto simp: dict_inv_def)
  have "\<forall>i < Suc (length (idx2word d)).
          ((word2idx d)(w \<mapsto> length (idx2word d))) ((idx2word d @ [w]) ! i) = Some i"
  proof (intro allI impI)
    fix i assume "i < Suc (length (idx2word d))"
    then consider "i < length (idx2word d)" | "i = length (idx2word d)" by linarith
    then show "((word2idx d)(w \<mapsto> length (idx2word d))) ((idx2word d @ [w]) ! i) = Some i"
    proof cases
      case 1
      then have "idx2word d ! i \<noteq> w" using notin nth_mem by metis
      with 1 assms show ?thesis by (simp add: nth_append dict_inv_def)
    next
      case 2
      then show ?thesis by simp
    qed
  qed
  with None notin assms show ?thesis
    by (simp add: add_word_def dict_inv_def Let_def)
qed

lemma dict_inv_add_words: "dict_inv d \<Longrightarrow> dict_inv (add_words d ws)"
  by (induction ws arbitrary: d) (simp_all add: dict_inv_add_word)

lemma idx2word_add_word:
  "set (idx2word (fst (add_word d w))) = (if word2idx d w = None then insert w (set (idx2word d)) else set (idx2word d))"
  by (simp add: add_word_def Let_def split: option.splits)

lemma set_idx2word_add_words:
  "dict_inv d \<Longrightarrow> set (idx2word (add_words d ws)) = set (idx2word d) \<union> set ws"
proof (induction ws arbitrary: d)
  case Nil
  then show ?case by simp
next
  case (Cons w ws)
  have inv': "dict_inv (fst (add_word d w))" using Cons.prems by (rule dict_inv_add_word)
  have "set (idx2word (fst (add_word d w))) = insert w (set (idx2word d))"
    using Cons.prems by (auto simp: idx2word_add_word dict_inv_def)
  with Cons.IH [OF inv'] show ?case by auto
qed

text \<open>
  C3. After any sequence of \<open>add_word\<close> calls on a fresh Dictionary: looking an added word
  up and decoding the index gives the word back; decoding an index below the length and
  looking the word up gives the index back; \<open>add_word\<close> on a word that is present returns
  the index it already has and leaves the object as it is; and the length is the number of
  distinct words added.
\<close>

theorem dictionary_inverse:
  fixes ws :: "string list"
  defines "d \<equiv> add_words Dictionary_init ws"
  shows "(\<forall>w \<in> set ws. \<exists>i. word2idx d w = Some i \<and> i < length (idx2word d) \<and> idx2word d ! i = w)
       \<and> (\<forall>i < length (idx2word d). word2idx d (idx2word d ! i) = Some i)
       \<and> (\<forall>w \<in> set ws. add_word d w = (d, the (word2idx d w)))
       \<and> len_dictionary d = card (set ws)"
proof -
  have inv: "dict_inv d"
    unfolding d_def by (rule dict_inv_add_words [OF dict_inv_init])
  have words: "set (idx2word d) = set ws"
    unfolding d_def using set_idx2word_add_words [OF dict_inv_init, of ws]
    by (simp add: Dictionary_init_def)
  have a: "\<exists>i. word2idx d w = Some i \<and> i < length (idx2word d) \<and> idx2word d ! i = w"
    if "w \<in> set ws" for w
  proof -
    from that words obtain i where i: "i < length (idx2word d)" "idx2word d ! i = w"
      by (metis in_set_conv_nth)
    with inv have "word2idx d w = Some i" by (auto simp: dict_inv_def)
    with i show ?thesis by blast
  qed
  have b: "\<forall>i < length (idx2word d). word2idx d (idx2word d ! i) = Some i"
    using inv by (simp add: dict_inv_def)
  have c: "add_word d w = (d, the (word2idx d w))" if "w \<in> set ws" for w
    using a [OF that] by (auto simp: add_word_def)
  have "len_dictionary d = card (set ws)"
    using inv words by (metis dict_inv_def distinct_card len_dictionary_def)
  with a b c show ?thesis by blast
qed

theorem dictionary_inverse_witness:
  "idx2word (add_words Dictionary_init [''the'', ''cat'', ''the'', ''<eos>'']) = [''the'', ''cat'', ''<eos>'']
   \<and> len_dictionary (add_words Dictionary_init [''the'', ''cat'', ''the'', ''<eos>'']) = 3
   \<and> card (set [''the'', ''cat'', ''the'', ''<eos>'']) = 3"
proof -
  have e: "idx2word (add_words Dictionary_init [''the'', ''cat'', ''the'', ''<eos>'']) = [''the'', ''cat'', ''<eos>'']"
    by (simp add: Dictionary_init_def add_word_def Let_def)
  have "len_dictionary (add_words Dictionary_init [''the'', ''cat'', ''the'', ''<eos>''])
        = card (set [''the'', ''cat'', ''the'', ''<eos>''])"
    using dictionary_inverse [of "[''the'', ''cat'', ''the'', ''<eos>'']"] by blast
  with e show ?thesis by (simp add: len_dictionary_def)
qed

section \<open>The forward passes follow the recurrence equations\<close>

lemma rnn_h_Cons: "rnn_h F P (X # Xs) h (Suc t) = rnn_h F P Xs (rnn_h F P (X # Xs) h (Suc 0)) t"
  by (induction t) simp_all

lemma simple_rnn_loop_eq:
  "simple_rnn_loop F P T Xs outs h =
     (outs @ map (\<lambda>t. yhat_of F P T (rnn_h F P Xs h (Suc t))) [0..<length Xs],
      rnn_h F P Xs h (length Xs))"
proof (induction Xs arbitrary: outs h)
  case Nil
  show ?case by simp
next
  case (Cons X Xs)
  let ?h1 = "rnn_h F P (X # Xs) h (Suc 0)"
  have upt: "[0..<Suc (length Xs)] = 0 # map Suc [0..<length Xs]"
    by (simp add: upt_conv_Cons map_Suc_upt del: upt_Suc)
  have "simple_rnn_loop F P T (X # Xs) outs h
        = simple_rnn_loop F P T Xs (outs @ [yhat_of F P T ?h1]) ?h1"
    by (simp add: Let_def yhat_of_def)
  also have "\<dots> = ((outs @ [yhat_of F P T ?h1]) @
                    map (\<lambda>t. yhat_of F P T (rnn_h F P Xs ?h1 (Suc t))) [0..<length Xs],
                  rnn_h F P Xs ?h1 (length Xs))"
    by (rule Cons.IH)
  also have "\<dots> = (outs @ map (\<lambda>t. yhat_of F P T (rnn_h F P (X # Xs) h (Suc t))) [0..<length (X # Xs)],
                  rnn_h F P (X # Xs) h (length (X # Xs)))"
    unfolding length_Cons upt by (simp only: rnn_h_Cons [symmetric] list.map map_map o_def append_assoc append_Cons append_Nil)
  finally show ?case .
qed

lemma gru_h_Cons: "gru_h F P (X # Xs) h (Suc t) = gru_h F P Xs (gru_h F P (X # Xs) h (Suc 0)) t"
  by (induction t) simp_all

lemma gru_rnn_loop_eq:
  "gru_rnn_loop F P T Xs outs h =
     (outs @ map (\<lambda>t. yhat_of F P T (gru_h F P Xs h (Suc t))) [0..<length Xs],
      gru_h F P Xs h (length Xs))"
proof (induction Xs arbitrary: outs h)
  case Nil
  show ?case by simp
next
  case (Cons X Xs)
  let ?h1 = "gru_h F P (X # Xs) h (Suc 0)"
  have upt: "[0..<Suc (length Xs)] = 0 # map Suc [0..<length Xs]"
    by (simp add: upt_conv_Cons map_Suc_upt del: upt_Suc)
  have "gru_rnn_loop F P T (X # Xs) outs h
        = gru_rnn_loop F P T Xs (outs @ [yhat_of F P T ?h1]) ?h1"
    by (simp add: Let_def yhat_of_def gru_z_def gru_r_def)
  also have "\<dots> = ((outs @ [yhat_of F P T ?h1]) @
                    map (\<lambda>t. yhat_of F P T (gru_h F P Xs ?h1 (Suc t))) [0..<length Xs],
                  gru_h F P Xs ?h1 (length Xs))"
    by (rule Cons.IH)
  also have "\<dots> = (outs @ map (\<lambda>t. yhat_of F P T (gru_h F P (X # Xs) h (Suc t))) [0..<length (X # Xs)],
                  gru_h F P (X # Xs) h (length (X # Xs)))"
    unfolding length_Cons upt by (simp only: gru_h_Cons [symmetric] list.map map_map o_def append_assoc append_Cons append_Nil)
  finally show ?case .
qed

text \<open>
  The hand-written \<open>softmax\<close> on arrays of reals is the softmax function of every row,
  taken at the entries divided by the temperature: subtracting the largest entry of the
  array changes numerator and denominator by the same factor.
\<close>

lemma bcast_scalar: "bcast f A [[m]] = map (map (\<lambda>x. f x m)) A"
  by (simp add: bcast_def bcast_row_def)

lemma bcast_row_single: "bcast_row f r [s] = map (\<lambda>x. f x s) r"
  by (simp add: bcast_row_def)

lemma bcast_column:
  "bcast f E (map (\<lambda>r. [g r]) E) = map (\<lambda>r. map (\<lambda>x. f x (g r)) r) E"
proof (cases "length E = 1")
  case True
  then obtain r where "E = [r]" by (cases E) auto
  then show ?thesis by (simp add: bcast_def bcast_row_single)
next
  case False
  have "map2 (bcast_row f) E (map (\<lambda>r. [g r]) E) = map (\<lambda>r. map (\<lambda>x. f x (g r)) r) E"
    by (induction E) (simp_all add: bcast_row_single)
  with False show ?thesis by (simp add: bcast_def)
qed

lemma sum_list_divide: "sum_list (map (\<lambda>x. f x / c) xs) = sum_list (map f xs) / (c::real)"
  by (induction xs) (simp_all add: add_divide_distrib)

lemma softmax_shift:
  "exp ((x - m) / T) / sum_list (map (\<lambda>z. exp ((z - m) / T)) r)
     = exp (x / T) / sum_list (map (\<lambda>z. exp (z / T)) r)" for x m T :: real
proof -
  have e: "exp ((z - m) / T) = exp (z / T) / exp (m / T)" for z
    by (simp add: diff_divide_distrib exp_diff)
  show ?thesis
    unfolding e sum_list_divide by simp
qed

lemma softmax_matrix:
  "softmax matrix_ops y T = std_softmax (map (map (\<lambda>x. x / T)) y)"
proof -
  let ?m = "Max (set (concat y))"
  let ?e = "map (map (\<lambda>x. exp ((x - ?m) / T))) y"
  have part: "nd_reshape_col matrix_ops (nd_sum_rows matrix_ops ?e) = map (\<lambda>r. [sum_list r]) ?e"
    by (simp add: matrix_ops_def)
  have "softmax matrix_ops y T = bcast (/) ?e (map (\<lambda>r. [sum_list r]) ?e)"
    unfolding softmax_def Let_def
    by (simp add: matrix_ops_def bcast_scalar o_def)
  also have "\<dots> = map (\<lambda>r. map (\<lambda>x. x / sum_list r) r) ?e"
    by (rule bcast_column)
  also have "\<dots> = map (\<lambda>r. map (\<lambda>x. exp ((x - ?m) / T)
                        / sum_list (map (\<lambda>z. exp ((z - ?m) / T)) r)) r) y"
    by (simp add: o_def)
  also have "\<dots> = map (\<lambda>r. map (\<lambda>x. exp (x / T) / sum_list (map (\<lambda>z. exp (z / T)) r)) r) y"
    by (simp only: softmax_shift)
  also have "\<dots> = std_softmax (map (map (\<lambda>x. x / T)) y)"
    by (simp add: std_softmax_def o_def)
  finally show ?thesis .
qed

lemma yhat_of_matrix:
  "yhat_of matrix_ops P T h =
     std_softmax (map (map (\<lambda>x. x / T)) (bcast (+) (mat_dot h (Why P)) (b_y P)))"
  by (simp add: yhat_of_def softmax_matrix) (simp add: matrix_ops_def)

text \<open>
  C1. For every list of inputs and every initial hidden state, \<open>simple_rnn\<close> returns the
  outputs \<open>softmax(h\<^sub>t W\<^sub>h\<^sub>y + b\<^sub>y)\<close> for \<open>t = 1, \<dots>, T\<close> and the final state \<open>h\<^sub>T\<close>,
  where \<open>h\<^sub>t = tanh(X\<^sub>t W\<^sub>x\<^sub>h + h\<^sub>t\<^sub>-\<^sub>1 W\<^sub>h\<^sub>h + b\<^sub>h)\<close> (\<open>rnn_h\<close>); \<open>gru_rnn\<close> does the same with
  the gated update \<open>h\<^sub>t = z\<^sub>t h\<^sub>t\<^sub>-\<^sub>1 + (1 - z\<^sub>t) tanh(X\<^sub>t W\<^sub>x\<^sub>h + (r\<^sub>t h\<^sub>t\<^sub>-\<^sub>1) W\<^sub>h\<^sub>h + b\<^sub>h)\<close> (\<open>gru_h\<close>, with
  \<open>gru_z\<close> and \<open>gru_r\<close>). Each returns one output for each input. The first four parts hold
  for every temperature and whatever the library operations compute, with the outputs
  given through the code's \<open>softmax\<close> (\<open>yhat_of\<close>). The last three are on arrays of reals:
  the code's \<open>softmax\<close> is the softmax function \<open>std_softmax\<close>, and at the default
  temperature 1.0 the outputs of both networks are \<open>std_softmax (h\<^sub>t W\<^sub>h\<^sub>y + b\<^sub>y)\<close>.
\<close>

theorem rnn_forward_is_recurrence:
  "simple_rnn F P inputs state T =
     (map (\<lambda>t. yhat_of F P T (rnn_h F P inputs state (Suc t))) [0..<length inputs],
      rnn_h F P inputs state (length inputs))
   \<and> length (fst (simple_rnn F P inputs state T)) = length inputs
   \<and> gru_rnn F G inputs h T =
     (map (\<lambda>t. yhat_of F G T (gru_h F G inputs h (Suc t))) [0..<length inputs],
      gru_h F G inputs h (length inputs))
   \<and> length (fst (gru_rnn F G inputs h T)) = length inputs
   \<and> softmax matrix_ops y T = std_softmax (map (map (\<lambda>x. x / T)) y)
   \<and> simple_rnn matrix_ops Pm xs s0 1 =
     (map (\<lambda>t. std_softmax (bcast (+) (mat_dot (rnn_h matrix_ops Pm xs s0 (Suc t)) (Why Pm)) (b_y Pm)))
        [0..<length xs],
      rnn_h matrix_ops Pm xs s0 (length xs))
   \<and> gru_rnn matrix_ops Gm xs s0 1 =
     (map (\<lambda>t. std_softmax (bcast (+) (mat_dot (gru_h matrix_ops Gm xs s0 (Suc t)) (Why Gm)) (b_y Gm)))
        [0..<length xs],
      gru_h matrix_ops Gm xs s0 (length xs))"
proof -
  have rnn: "simple_rnn F P inputs state T =
     (map (\<lambda>t. yhat_of F P T (rnn_h F P inputs state (Suc t))) [0..<length inputs],
      rnn_h F P inputs state (length inputs))" for F :: "'x nd_ops" and P :: "('x, 'y) rnn_params_scheme"
      and inputs state T
    unfolding simple_rnn_def by (simp add: simple_rnn_loop_eq)
  have gru: "gru_rnn F G inputs h T =
     (map (\<lambda>t. yhat_of F G T (gru_h F G inputs h (Suc t))) [0..<length inputs],
      gru_h F G inputs h (length inputs))" for F :: "'x nd_ops" and G inputs h T
    unfolding gru_rnn_def by (simp add: gru_rnn_loop_eq)
  have id1: "map (map (\<lambda>x. x / 1)) A = A" for A :: "real list list"
    by (simp add: map_idI)
  have l1: "length (fst (simple_rnn F P inputs state T)) = length inputs"
    unfolding rnn by simp
  have l2: "length (fst (gru_rnn F G inputs h T)) = length inputs"
    unfolding gru by simp
  have m1: "simple_rnn matrix_ops Pm xs s0 1 =
     (map (\<lambda>t. std_softmax (bcast (+) (mat_dot (rnn_h matrix_ops Pm xs s0 (Suc t)) (Why Pm)) (b_y Pm)))
        [0..<length xs],
      rnn_h matrix_ops Pm xs s0 (length xs))"
    unfolding rnn yhat_of_matrix id1 ..
  have m2: "gru_rnn matrix_ops Gm xs s0 1 =
     (map (\<lambda>t. std_softmax (bcast (+) (mat_dot (gru_h matrix_ops Gm xs s0 (Suc t)) (Why Gm)) (b_y Gm)))
        [0..<length xs],
      gru_h matrix_ops Gm xs s0 (length xs))"
    unfolding gru yhat_of_matrix id1 ..
  show ?thesis
    using rnn [of F P inputs state T] l1 gru [of F G inputs h T] l2 softmax_matrix [of y T] m1 m2
    by (intro conjI) assumption+
qed

text \<open>
  Two inputs, one hidden unit, two outputs. The hidden state of the simple RNN goes to
  \<open>tanh 1\<close> on the first one-hot input and to \<open>tanh 2\<close> on the second, the GRU goes to
  \<open>tanh 1 / 2\<close>; each output row is the softmax of \<open>(h, 0)\<close> and sums to 1.
\<close>

lemma mat_simps:
  "nd_dot matrix_ops = mat_dot" "nd_add matrix_ops = bcast (+)" "nd_mul matrix_ops = bcast (*)"
  "nd_tanh matrix_ops = map (map tanh)"
  "nd_sigmoid matrix_ops = map (map (\<lambda>x. 1 / (1 + exp (- x))))"
  "nd_rsub_scalar matrix_ops = (\<lambda>s A. map (map (\<lambda>x. s - x)) A)"
  by (simp_all add: matrix_ops_def)

lemma small_rnn_h1: "rnn_h matrix_ops small_weights [[[1, 0]], [[0, 1]]] [[0]] (Suc 0) = [[tanh 1]]"
  by (simp add: mat_simps small_weights_def mat_dot_def bcast_def bcast_row_def upt_rec [of _ "numeral _"])

lemma small_rnn_h2: "rnn_h matrix_ops small_weights [[[1, 0]], [[0, 1]]] [[0]] (Suc (Suc 0)) = [[tanh 2]]"
  by (simp add: mat_simps small_weights_def mat_dot_def bcast_def bcast_row_def upt_rec [of _ "numeral _"])

lemma small_gru_h1: "gru_h matrix_ops small_weights [[[1, 0]]] [[0]] (0 + Suc 0) = [[tanh 1 / 2]]"
  by (simp add: mat_simps gru_z_def gru_r_def small_weights_def mat_dot_def bcast_def bcast_row_def upt_rec [of _ "numeral _"])

lemma small_output: "std_softmax (bcast (+) (mat_dot [[a]] (Why small_weights)) (b_y small_weights))
   = [[exp a / (exp a + 1), 1 / (exp a + 1)]]"
  by (simp add: small_weights_def mat_dot_def bcast_def bcast_row_def std_softmax_def upt_rec [of _ "numeral _"])

theorem rnn_forward_is_recurrence_witness:
  "simple_rnn matrix_ops small_weights [[[1, 0]], [[0, 1]]] [[0]] 1 =
     ([[[exp (tanh 1) / (exp (tanh 1) + 1), 1 / (exp (tanh 1) + 1)]],
       [[exp (tanh 2) / (exp (tanh 2) + 1), 1 / (exp (tanh 2) + 1)]]],
      [[tanh 2]])
   \<and> gru_rnn matrix_ops small_weights [[[1, 0]]] [[0]] 1 =
     ([[[exp (tanh 1 / 2) / (exp (tanh 1 / 2) + 1), 1 / (exp (tanh 1 / 2) + 1)]]],
      [[tanh 1 / 2]])
   \<and> softmax matrix_ops [[0, ln 2]] 1 = [[1 / 3, 2 / 3]]"
proof -
  note inst = rnn_forward_is_recurrence [where F = matrix_ops and P = small_weights
      and G = small_weights and inputs = "[]" and state = "[]" and h = "[]" and T = 1
      and y = "[[0, ln 2]]" and Pm = small_weights and Gm = small_weights
      and xs = "[[[1, 0]], [[0, 1]]]" and ?s0.0 = "[[0]]"]
  note inst' = rnn_forward_is_recurrence [where F = matrix_ops and P = small_weights
      and G = small_weights and inputs = "[]" and state = "[]" and h = "[]" and T = 1
      and y = "[[0, ln 2]]" and Pm = small_weights and Gm = small_weights
      and xs = "[[[1, 0]]]" and ?s0.0 = "[[0]]"]
  have u2: "[0..<length [[[1, 0 :: real]], [[0, 1]]]] = [0, Suc 0]"
    by (simp add: upt_rec [of _ "numeral _"])
  from inst have "simple_rnn matrix_ops small_weights [[[1, 0]], [[0, 1]]] [[0]] 1 =
     (map (\<lambda>t. std_softmax (bcast (+) (mat_dot (rnn_h matrix_ops small_weights [[[1, 0]], [[0, 1]]] [[0]] (Suc t))
                 (Why small_weights)) (b_y small_weights))) [0..<length [[[1, 0 :: real]], [[0, 1]]]],
      rnn_h matrix_ops small_weights [[[1, 0]], [[0, 1]]] [[0]] (length [[[1, 0 :: real]], [[0, 1]]]))"
    by (elim conjE)
  then have a: "simple_rnn matrix_ops small_weights [[[1, 0]], [[0, 1]]] [[0]] 1 =
     ([[[exp (tanh 1) / (exp (tanh 1) + 1), 1 / (exp (tanh 1) + 1)]],
       [[exp (tanh 2) / (exp (tanh 2) + 1), 1 / (exp (tanh 2) + 1)]]],
      [[tanh 2]])"
    unfolding u2 by (simp add: small_rnn_h1 small_rnn_h2 small_output del: rnn_h.simps)
  have "gru_rnn matrix_ops small_weights [[[1, 0]]] [[0]] 1 =
     (map (\<lambda>t. std_softmax (bcast (+) (mat_dot (gru_h matrix_ops small_weights [[[1, 0]]] [[0]] (Suc t))
                 (Why small_weights)) (b_y small_weights))) [0..<length [[[1, 0 :: real]]]],
      gru_h matrix_ops small_weights [[[1, 0]]] [[0]] (length [[[1, 0 :: real]]]))"
    using inst' by (elim conjE)
  then have b: "gru_rnn matrix_ops small_weights [[[1, 0]]] [[0]] 1 =
     ([[[exp (tanh 1 / 2) / (exp (tanh 1 / 2) + 1), 1 / (exp (tanh 1 / 2) + 1)]]],
      [[tanh 1 / 2]])"
    using small_gru_h1 by (simp add: small_output del: gru_h.simps)
  from inst have "softmax matrix_ops [[0, ln 2]] 1 = std_softmax (map (map (\<lambda>x. x / 1)) [[0, ln 2]])"
    by (elim conjE)
  then have c: "softmax matrix_ops [[0, ln 2]] 1 = [[1 / 3, 2 / 3]]"
    by (simp add: std_softmax_def)
  from a b c show ?thesis by (intro conjI)
qed

section \<open>The optimizer\<close>

lemma SGD_other: "p \<notin> set params \<Longrightarrow> SGD F params lr st p = st p"
  by (induction params arbitrary: st) auto

lemma SGD_grad: "grad (SGD F params lr st p) = grad (st p)"
  by (induction params arbitrary: st) auto

lemma SGD_val:
  "distinct params \<Longrightarrow> p \<in> set params \<Longrightarrow>
   val (SGD F params lr st p) = nd_sub F (val (st p)) (nd_rmul_scalar F lr (grad (st p)))"
proof (induction params arbitrary: st)
  case Nil
  then show ?case by simp
next
  case (Cons q params)
  show ?case
  proof (cases "p = q")
    case True
    then have "p \<notin> set params" using Cons.prems by simp
    then show ?thesis using True by (simp add: SGD_other)
  next
    case False
    then show ?thesis using Cons by simp
  qed
qed

text \<open>
  C2 (amended). For every list of pairwise distinct parameters and every learning rate,
  \<open>SGD\<close> sets the value of each parameter of the list to its previous value minus \<open>lr\<close>
  times its gradient, and changes nothing else: every gradient and every array that is not
  in the list is as before.
\<close>

theorem SGD_distinct_update:
  assumes "distinct params"
  shows "(\<forall>p \<in> set params.
            val (SGD F params lr st p) = nd_sub F (val (st p)) (nd_rmul_scalar F lr (grad (st p))))
       \<and> (\<forall>p. grad (SGD F params lr st p) = grad (st p))
       \<and> (\<forall>p. p \<notin> set params \<longrightarrow> SGD F params lr st p = st p)"
proof (intro conjI ballI allI impI)
  fix p assume "p \<in> set params"
  with assms show "val (SGD F params lr st p)
      = nd_sub F (val (st p)) (nd_rmul_scalar F lr (grad (st p)))"
    by (rule SGD_val)
next
  fix p show "grad (SGD F params lr st p) = grad (st p)" by (rule SGD_grad)
next
  fix p assume "p \<notin> set params"
  then show "SGD F params lr st p = st p" by (rule SGD_other)
qed

theorem SGD_distinct_update_witness:
  "distinct [0::nat, 1]
   \<and> val (SGD scalar_ops [0, 1] (1/2) ones_store 0) = 1/2
   \<and> val (SGD scalar_ops [0, 1] (1/2) ones_store 1) = 1/2
   \<and> SGD scalar_ops [0, 1] (1/2) ones_store 2 = ones_store 2"
proof -
  have d: "distinct [0::nat, 1]" by simp
  from SGD_distinct_update [OF d, of scalar_ops "1/2" ones_store]
  show ?thesis by (simp add: scalar_ops_def ones_store_def)
qed

text \<open>
  C2 as stated, for every list, fails when the list holds the same array twice: the update
  is then applied twice. With value 1, gradient 1 and rate 1/2 the array ends at 0, not at
  1/2.
\<close>

theorem SGD_repeated_parameter:
  "val (SGD scalar_ops [0, 0] (1/2) ones_store 0)
     \<noteq> nd_sub scalar_ops (val (ones_store 0)) (nd_rmul_scalar scalar_ops (1/2) (grad (ones_store 0)))"
  by (simp add: scalar_ops_def ones_store_def)

section \<open>One-hot encoding and its inverse\<close>

lemma one_hots_map:
  "(\<forall>idx \<in> set ixs. 0 \<le> idx \<and> idx < int V) \<Longrightarrow>
   one_hots ixs V = Some (map (\<lambda>idx. [(replicate V 0)[nat idx := 1]]) ixs)"
  by (induction ixs) simp_all

lemma one_hot_split:
  "k < V \<Longrightarrow> (replicate V (0::real))[k := 1] = replicate k 0 @ 1 # replicate (V - Suc k) 0"
proof -
  assume "k < V"
  then have "replicate V (0::real) = replicate k 0 @ 0 # replicate (V - Suc k) 0"
    by (metis Suc_diff_Suc add_diff_inverse_nat less_imp_le_nat not_less replicate_add replicate_Suc le_add_diff_inverse)
  then show ?thesis by (simp add: list_update_append)
qed

lemma nd_argmax_one_hot: "k < V \<Longrightarrow> nd_argmax ((replicate V 0)[k := 1]) = k"
proof -
  assume k: "k < V"
  let ?v = "(replicate V (0::real))[k := 1]"
  have v: "?v = replicate k 0 @ 1 # replicate (V - Suc k) 0" using k by (rule one_hot_split)
  have "set ?v \<subseteq> {0, 1}" unfolding v by auto
  moreover have "1 \<in> set ?v" unfolding v by simp
  ultimately have "Max (set ?v) = 1"
    by (intro Max_eqI) auto
  then have "nd_argmax ?v = length (takeWhile (\<lambda>x. x \<noteq> 1) ?v)" by (simp add: nd_argmax_def)
  also have "\<dots> = k" unfolding v by (simp add: takeWhile_append)
  finally show ?thesis .
qed

text \<open>
  C4. For every list of indices in \<open>[0, vocab_size)\<close>, \<open>one_hots\<close> returns one array of
  one row of length \<open>vocab_size\<close> for each index, with 1 at that index and 0 at every other
  position.
\<close>

theorem one_hots_single_one:
  assumes "\<forall>idx \<in> set ixs. 0 \<le> idx \<and> idx < int vocab_size"
  shows "\<exists>result. one_hots ixs vocab_size = Some result \<and> length result = length ixs
           \<and> (\<forall>k < length ixs. \<exists>v. result ! k = [v] \<and> length v = vocab_size
                 \<and> (\<forall>j < vocab_size. v ! j = (if int j = ixs ! k then 1 else 0)))"
proof -
  let ?r = "map (\<lambda>idx. [(replicate vocab_size (0::real))[nat idx := 1]]) ixs"
  have r: "one_hots ixs vocab_size = Some ?r" using assms by (rule one_hots_map)
  have "\<exists>v. ?r ! k = [v] \<and> length v = vocab_size
             \<and> (\<forall>j < vocab_size. v ! j = (if int j = ixs ! k then 1 else 0))"
    if k: "k < length ixs" for k
  proof -
    have rng: "0 \<le> ixs ! k" "ixs ! k < int vocab_size" using assms k by auto
    have "\<forall>j < vocab_size. (replicate vocab_size (0::real))[nat (ixs ! k) := 1] ! j
            = (if int j = ixs ! k then 1 else 0)"
      using rng by (auto simp: nth_list_update)
    then show ?thesis using k by simp
  qed
  with r show ?thesis by simp
qed

theorem one_hots_single_one_witness:
  "one_hots [2, 0] 3 = Some [[[0, 0, 1]], [[1, 0, 0]]]
   \<and> length (the (one_hots [2, 0] 3)) = length [2, 0 :: int]"
proof -
  have h: "\<forall>idx \<in> set [2, 0 :: int]. 0 \<le> idx \<and> idx < int 3" by simp
  have e: "one_hots [2, 0] 3 = Some [[[0, 0, 1]], [[1, 0, 0]]]"
    by (simp add: numeral_3_eq_3 numeral_2_eq_2)
  from one_hots_single_one [OF h] obtain result
    where "one_hots [2, 0] 3 = Some result" "length result = length [2, 0 :: int]" by blast
  with e show ?thesis by simp
qed

lemma float32_of_nat_exact: "n < 2 ^ 24 \<Longrightarrow> float32_of_nat n = n"
  by (simp add: float32_of_nat_def float32_ulp.simps [of n])

lemma float32_of_nat_rounds: "float32_of_nat 16777217 = 16777216"
  by (simp add: float32_of_nat_def float32_ulp.simps [of 16777217] float32_ulp.simps [of 8388608])

lemma textify_one_hots:
  "V \<le> length cl \<Longrightarrow> V \<le> 2 ^ 24 \<Longrightarrow> (\<forall>idx \<in> set ixs. 0 \<le> idx \<and> idx < int V) \<Longrightarrow>
   textify cl (map (\<lambda>idx. [(replicate V 0)[nat idx := 1]]) ixs)
     = Some (map (\<lambda>idx. cl ! nat idx) ixs)"
proof (induction ixs)
  case Nil
  show ?case by simp
next
  case (Cons idx ixs)
  then have k: "nat idx < V" by auto
  then have ne: "(replicate V (0::real))[nat idx := 1] \<noteq> []" by auto
  have "nat idx < 2 ^ 24" using k Cons.prems(2) by simp
  then have f: "float32_of_nat (nat idx) = nat idx" by (rule float32_of_nat_exact)
  have ih: "textify cl (map (\<lambda>idx. [(replicate V 0)[nat idx := 1]]) ixs)
              = Some (map (\<lambda>idx. cl ! nat idx) ixs)"
    using Cons.prems by (intro Cons.IH) simp_all
  from k Cons.prems(1) have "nat idx < length cl" by simp
  with ne ih f k show ?case by (simp add: nd_argmax_one_hot)
qed

lemma character_dict_loop_other:
  "c \<notin> set cl \<Longrightarrow> character_dict_loop m e cl c = m c"
  by (induction cl arbitrary: m e) auto

lemma character_dict_loop_nth:
  "distinct cl \<Longrightarrow> i < length cl \<Longrightarrow> character_dict_loop m e cl (cl ! i) = Some (e + i)"
proof (induction cl arbitrary: m e i)
  case Nil
  then show ?case by simp
next
  case (Cons c cl)
  show ?case
  proof (cases i)
    case 0
    then show ?thesis using Cons.prems by (simp add: character_dict_loop_other)
  next
    case (Suc j)
    have "character_dict_loop (m(c \<mapsto> e)) (Suc e) cl (cl ! j) = Some (Suc e + j)"
      using Cons.prems Suc by (intro Cons.IH) simp_all
    then show ?thesis using Suc by simp
  qed
qed

lemma numerical_roundtrip:
  "distinct cl \<Longrightarrow> set s \<subseteq> set cl \<Longrightarrow>
   \<exists>ixs. numerical (character_dict cl) s = Inr ixs
         \<and> (\<forall>idx \<in> set ixs. 0 \<le> idx \<and> idx < int (length cl))
         \<and> map (\<lambda>idx. cl ! nat idx) ixs = s"
proof (induction s)
  case Nil
  then show ?case by simp
next
  case (Cons c s)
  then obtain ixs where ixs: "numerical (character_dict cl) s = Inr ixs"
      "\<forall>idx \<in> set ixs. 0 \<le> idx \<and> idx < int (length cl)" "map (\<lambda>idx. cl ! nat idx) ixs = s"
    by auto
  from Cons.prems obtain i where i: "i < length cl" "cl ! i = c"
    by (auto simp: in_set_conv_nth)
  then have "character_dict cl c = Some i"
    using character_dict_loop_nth [OF Cons.prems(1) i(1), of Map.empty 0]
    by (simp add: character_dict_def)
  with ixs i show ?case by simp
qed

text \<open>
  C5. With \<open>vocab_size = len(character_list)\<close>, as the notebook sets it (or smaller), and
  a vocabulary of at most \<open>2 ^ 24\<close> entries, which a list of distinct characters always is:
  for every list of indices in \<open>[0, vocab_size)\<close>, \<open>textify (one_hots ixs)\<close> is the string
  whose \<open>k\<close>-th character is \<open>character_list[ixs[k]]\<close>; and for every text over the characters of \<open>character_list\<close>
  (which has no repetition), encoding it through \<open>character_dict\<close> and \<open>one_hots\<close> and
  decoding it with \<open>textify\<close> gives the text back.
\<close>

theorem textify_inverts_one_hots:
  "(vocab_size \<le> length cl \<and> vocab_size \<le> 2 ^ 24
      \<and> (\<forall>idx \<in> set ixs. 0 \<le> idx \<and> idx < int vocab_size) \<longrightarrow>
      (\<exists>vs. one_hots ixs vocab_size = Some vs
           \<and> textify cl vs = Some (map (\<lambda>idx. cl ! nat idx) ixs)))
   \<and> (distinct cl \<and> length cl \<le> 2 ^ 24 \<and> set s \<subseteq> set cl \<longrightarrow>
      (\<exists>ixs vs. numerical (character_dict cl) s = Inr ixs
           \<and> one_hots ixs (length cl) = Some vs \<and> textify cl vs = Some s))"
proof (intro conjI impI)
  assume "vocab_size \<le> length cl \<and> vocab_size \<le> 2 ^ 24
      \<and> (\<forall>idx \<in> set ixs. 0 \<le> idx \<and> idx < int vocab_size)"
  then show "\<exists>vs. one_hots ixs vocab_size = Some vs
           \<and> textify cl vs = Some (map (\<lambda>idx. cl ! nat idx) ixs)"
    by (simp add: one_hots_map textify_one_hots)
next
  assume h: "distinct cl \<and> length cl \<le> 2 ^ 24 \<and> set s \<subseteq> set cl"
  then obtain ixs where ixs: "numerical (character_dict cl) s = Inr ixs"
      "\<forall>idx \<in> set ixs. 0 \<le> idx \<and> idx < int (length cl)" "map (\<lambda>idx. cl ! nat idx) ixs = s"
    using numerical_roundtrip by blast
  from h have le: "length cl \<le> 2 ^ 24" by simp
  show "\<exists>ixs vs. numerical (character_dict cl) s = Inr ixs
           \<and> one_hots ixs (length cl) = Some vs \<and> textify cl vs = Some s"
    using ixs one_hots_map [OF ixs(2)] textify_one_hots [OF le_refl le ixs(2)] by auto
qed

theorem textify_inverts_one_hots_witness:
  "textify ''abc'' (the (one_hots [2, 0] (length ''abc''))) = Some ''ca''
   \<and> numerical (character_dict ''abc'') ''cab'' = Inr [2, 0, 1]
   \<and> textify ''abc'' (the (one_hots [2, 0, 1] (length ''abc''))) = Some ''cab''"
proof -
  have h1: "\<forall>idx \<in> set [2, 0 :: int]. 0 \<le> idx \<and> idx < int (length ''abc'')" by simp
  have h2: "distinct ''abc'' \<and> length ''abc'' \<le> 2 ^ 24 \<and> set ''cab'' \<subseteq> set ''abc''" by simp
  have h3: "length ''abc'' \<le> (2::nat) ^ 24" by simp
  have n: "numerical (character_dict ''abc'') ''cab'' = Inr [2, 0, 1]"
    by (simp add: character_dict_def)
  note inst = textify_inverts_one_hots [of "length ''abc''" "''abc''" "[2, 0]" "''cab''"]
  from inst h1 h3
  have "\<exists>vs. one_hots [2, 0] (length ''abc'') = Some vs
           \<and> textify ''abc'' vs = Some (map (\<lambda>idx. ''abc'' ! nat idx) [2, 0])"
    by blast
  then have a: "textify ''abc'' (the (one_hots [2, 0] (length ''abc''))) = Some ''ca''"
    by (auto simp: numeral_2_eq_2)
  from inst h2
  have "\<exists>ixs vs. numerical (character_dict ''abc'') ''cab'' = Inr ixs
           \<and> one_hots ixs (length ''abc'') = Some vs \<and> textify ''abc'' vs = Some ''cab''"
    by blast
  then have b: "textify ''abc'' (the (one_hots [2, 0, 1] (length ''abc''))) = Some ''cab''"
    unfolding n by auto
  from a n b show ?thesis by blast
qed

section \<open>Exceptions raised by the notebooks' own code\<close>











section \<open>The learning-rate schedule\<close>

lemma schedule_step:
  "(if (e + 1) mod 100 = 0 then lr0 / 2 ^ (e div 100) / 2 else lr0 / 2 ^ (e div 100))
     = lr0 / 2 ^ ((e + 1) div 100)" for lr0 :: real and e :: nat
  by (simp add: div_Suc)

lemma training_loop_schedule:
  "training_loop body [k..<n] (lr0 / 2 ^ (k div 100)) s =
     (case run_with_schedule body (\<lambda>e. lr0 / 2 ^ ((e + 1) div 100)) [k..<n] s of
        Inl err \<Rightarrow> Inl err
      | Inr s' \<Rightarrow> Inr (lr0 / 2 ^ (n div 100), s'))"
  if "k \<le> n"
  using that
proof (induction "n - k" arbitrary: k s)
  case 0
  then have "[k..<n] = []" "n = k" by auto
  then show ?case by simp
next
  case (Suc d)
  then have kn: "k < n" and d: "d = n - Suc k" by auto
  have upt: "[k..<n] = k # [Suc k..<n]" using kn by (simp add: upt_conv_Cons)
  have le: "Suc k \<le> n" using kn by simp
  show ?case
    unfolding upt
    using Suc.hyps(1) [OF d le] schedule_step [of k lr0]
    by (simp add: Let_def split: sum.splits)
qed

lemma run_with_schedule_record:
  "run_with_schedule record_rate rate es seen = Inr (seen @ map (\<lambda>e. (e, rate e)) es)"
  by (induction es arbitrary: seen) (simp_all add: record_rate_def)

text \<open>
  C7. In the training loop, epoch \<open>e\<close> runs with the rate \<open>lr0 / 2 ^ ((e + 1) div 100)\<close>,
  \<open>lr0\<close> being the initial rate: the loop that halves the variable when
  \<open>(e + 1) mod 100 = 0\<close>, before the body of that epoch, is the run in which the body of
  each epoch \<open>e\<close> is given that rate, and the variable ends at \<open>lr0 / 2 ^ (epochs div 100)\<close>.
\<close>

theorem learning_rate_schedule:
  "train_scratch body epochs lr0 s =
     (case run_with_schedule body (\<lambda>e. lr0 / 2 ^ ((e + 1) div 100)) [0..<epochs] s of
        Inl err \<Rightarrow> Inl err
      | Inr s' \<Rightarrow> Inr (lr0 / 2 ^ (epochs div 100), s'))"
  using training_loop_schedule [of 0 epochs body lr0 s] by (simp add: train_scratch_def)

text \<open>
  With the body that records the rate it is given, 200 epochs from the rate 1/2: the
  recorded rate of epoch \<open>e\<close> is \<open>1/2 / 2 ^ ((e + 1) div 100)\<close> (1/2 up to epoch 98, 1/4 from
  epoch 99, 1/8 in epoch 199), and the variable ends at 1/8.
\<close>

theorem learning_rate_schedule_witness:
  "train_scratch record_rate 200 (1/2) []
     = Inr (1/8, map (\<lambda>e. (e, 1/2 / 2 ^ ((e + 1) div 100))) [0..<200])"
  using learning_rate_schedule [of record_rate 200 "1/2" "[]"]
  by (simp add: run_with_schedule_record)

section \<open>Batches\<close>

lemma take_drop_map_nth:
  "k + m \<le> length xs \<Longrightarrow> take m (drop k xs) = map (\<lambda>i. xs ! (k + i)) [0..<m]"
  by (auto intro!: nth_equalityI)

lemma concat_chunks:
  "concat (map (\<lambda>j. take m (drop (j * m) xs)) [0..<b]) = take (b * m) xs"
proof (induction b)
  case 0
  show ?case by simp
next
  case (Suc b)
  have "take (b * m + m) xs = take (b * m) xs @ take m (drop (b * m) xs)"
    by (rule take_add)
  with Suc show ?case by (simp add: add.commute)
qed

lemma row_take_drop:
  assumes "wf_array2 A" "i < nrows A"
  shows "row A i = take (ncols A) (drop (i * ncols A) (elems A))"
proof -
  have "Suc i * ncols A \<le> nrows A * ncols A"
    using assms(2) by (intro mult_le_mono1) simp
  then have "i * ncols A + ncols A \<le> length (elems A)"
    using assms(1) by (simp add: wf_array2_def)
  then show ?thesis by (simp add: row_def entry_def take_drop_map_nth)
qed

lemma concat_rows:
  assumes "wf_array2 A"
  shows "lo \<le> hi \<Longrightarrow> hi \<le> nrows A \<Longrightarrow>
         concat (map (row A) [lo..<hi]) = take ((hi - lo) * ncols A) (drop (lo * ncols A) (elems A))"
proof (induction hi)
  case 0
  then show ?case by simp
next
  case (Suc hi)
  show ?case
  proof (cases "lo = Suc hi")
    case True
    then show ?thesis by simp
  next
    case False
    then have le: "lo \<le> hi" "hi \<le> nrows A" "hi < nrows A" using Suc.prems by auto
    have d: "drop ((hi - lo) * ncols A) (drop (lo * ncols A) (elems A)) = drop (hi * ncols A) (elems A)"
      using le(1) by (simp add: add_mult_distrib [symmetric])
    have "take ((hi - lo) * ncols A + ncols A) (drop (lo * ncols A) (elems A))
          = take ((hi - lo) * ncols A) (drop (lo * ncols A) (elems A))
            @ take (ncols A) (drop (hi * ncols A) (elems A))"
      unfolding take_add d ..
    moreover have "(Suc hi - lo) * ncols A = (hi - lo) * ncols A + ncols A"
      using le(1) by (simp add: Suc_diff_le)
    ultimately show ?thesis
      using Suc.IH [OF le(1,2)] le row_take_drop [OF assms le(3)] by simp
  qed
qed

lemma batchify_shape:
  assumes "0 < b"
  shows "batchify xs b = Inr \<lparr>nrows = length xs div b, ncols = b,
           elems = map (\<lambda>k. xs ! ((k mod b) * (length xs div b) + k div b))
                     [0..<length xs div b * b]\<rparr>"
proof -
  let ?nb = "length xs div b"
  have "take (?nb * b) xs ! ((k mod b) * ?nb + k div b) = xs ! ((k mod b) * ?nb + k div b)"
    if "k < ?nb * b" for k
  proof -
    have "k div b < ?nb" using that assms by (simp add: less_mult_imp_div_less)
    moreover have "k mod b < b" using assms by simp
    ultimately have "(k mod b) * ?nb + k div b < b * ?nb"
      by (metis add.commute mod_less_divisor mult.commute nat_add_left_cancel_less
            less_le_trans mult_Suc Suc_leI mult_le_mono2 add_less_cancel_left)
    then show ?thesis by (simp add: mult.commute)
  qed
  then show ?thesis
    using assms by (simp add: batchify_def Let_def nd_T_def reshape2_def entry_def mult.commute)
qed

lemma index_bound: "i < r \<Longrightarrow> j < c \<Longrightarrow> i * c + j < r * c" for i j r c :: nat
proof -
  assume "i < r" "j < c"
  then have "i * c + j < i * c + c" by simp
  also have "\<dots> = Suc i * c" by simp
  also have "\<dots> \<le> r * c" using \<open>i < r\<close> by (intro mult_le_mono1) simp
  finally show ?thesis .
qed

lemma batchify_column:
  assumes "0 < b" "j < b"
  shows "column \<lparr>nrows = length xs div b, ncols = b,
           elems = map (\<lambda>k. xs ! ((k mod b) * (length xs div b) + k div b))
                     [0..<length xs div b * b]\<rparr> j
         = take (length xs div b) (drop (j * (length xs div b)) xs)"
proof -
  let ?nb = "length xs div b"
  have "Suc j * ?nb \<le> b * ?nb" using assms(2) by (intro mult_le_mono1) simp
  also have "\<dots> \<le> length xs" by simp
  finally have le: "j * ?nb + ?nb \<le> length xs" by simp
  have "map (\<lambda>k. xs ! ((k mod b) * ?nb + k div b)) [0..<?nb * b] ! (i * b + j) = xs ! (j * ?nb + i)"
    if "i < ?nb" for i
  proof -
    have "i * b + j < ?nb * b" using that assms(2) by (rule index_bound)
    moreover have "(i * b + j) mod b = j" "(i * b + j) div b = i" using assms by simp_all
    ultimately show ?thesis by simp
  qed
  then have "column \<lparr>nrows = ?nb, ncols = b,
           elems = map (\<lambda>k. xs ! ((k mod b) * ?nb + k div b)) [0..<?nb * b]\<rparr> j
           = map (\<lambda>i. xs ! (j * ?nb + i)) [0..<?nb]"
    by (simp add: column_def entry_def)
  also have "\<dots> = take ?nb (drop (j * ?nb) xs)"
    using le by (simp add: take_drop_map_nth)
  finally show ?thesis .
qed

text \<open>
  C9. For a token array of length \<open>n\<close> and \<open>1 \<le> b \<le> n\<close>, \<open>batchify\<close> returns an array of
  shape \<open>(n div b, b)\<close> whose column \<open>j\<close> is the \<open>j\<close>-th run of \<open>n div b\<close> consecutive tokens;
  the columns together are the first \<open>(n div b) * b\<close> tokens in order, so the last
  \<open>n mod b\<close> tokens are dropped.
\<close>

theorem batchify_columns:
  assumes "1 \<le> b" "b \<le> length data"
  shows "\<exists>A. batchify data b = Inr A
           \<and> nrows A = length data div b \<and> ncols A = b \<and> wf_array2 A
           \<and> (\<forall>j < b. column A j = take (length data div b) (drop (j * (length data div b)) data))
           \<and> concat (map (column A) [0..<b]) = take (length data div b * b) data"
proof -
  let ?nb = "length data div b"
  let ?A = "\<lparr>nrows = ?nb, ncols = b,
           elems = map (\<lambda>k. data ! ((k mod b) * ?nb + k div b)) [0..<?nb * b]\<rparr>"
  have b: "0 < b" using assms(1) by simp
  have A: "batchify data b = Inr ?A" using b by (rule batchify_shape)
  have cols: "column ?A j = take ?nb (drop (j * ?nb) data)" if "j < b" for j
    using b that by (rule batchify_column)
  have "map (column ?A) [0..<b] = map (\<lambda>j. take ?nb (drop (j * ?nb) data)) [0..<b]"
    using cols by simp
  then have "concat (map (column ?A) [0..<b]) = take (b * ?nb) data"
    by (simp only: concat_chunks)
  then have cc: "concat (map (column ?A) [0..<b]) = take (?nb * b) data"
    by (simp add: mult.commute)
  have "wf_array2 ?A" by (simp add: wf_array2_def)
  with A cols cc show ?thesis by simp
qed

theorem batchify_columns_witness:
  "1 \<le> (2::nat) \<and> 2 \<le> length [10, 11, 12, 13, 14 :: nat]
   \<and> batchify [10, 11, 12, 13, 14 :: nat] 2 = Inr \<lparr>nrows = 2, ncols = 2, elems = [10, 12, 11, 13]\<rparr>
   \<and> column \<lparr>nrows = 2, ncols = 2, elems = [10, 12, 11, 13 :: nat]\<rparr> 1 = [12, 13]"
proof -
  have h1: "1 \<le> (2::nat)" and h2: "2 \<le> length [10, 11, 12, 13, 14 :: nat]" by simp_all
  have e: "batchify [10, 11, 12, 13, 14 :: nat] 2 = Inr \<lparr>nrows = 2, ncols = 2, elems = [10, 12, 11, 13]\<rparr>"
    by (simp add: batchify_def Let_def nd_T_def reshape2_def entry_def upt_rec [of _ "numeral _"])
  from batchify_columns [OF h1 h2] e
  have "column \<lparr>nrows = 2, ncols = 2, elems = [10, 12, 11, 13 :: nat]\<rparr> 1
        = take (length [10, 11, 12, 13, 14 :: nat] div 2) (drop (1 * (length [10, 11, 12, 13, 14 :: nat] div 2)) [10, 11, 12, 13, 14])"
    by auto
  then have "column \<lparr>nrows = 2, ncols = 2, elems = [10, 12, 11, 13 :: nat]\<rparr> 1 = [12, 13]"
    by simp
  with h1 h2 e show ?thesis by blast
qed

lemma rows_slice_in_range:
  assumes "lo \<le> hi" "hi \<le> nrows A"
  shows "rows_slice A lo hi = \<lparr>nrows = hi - lo, ncols = ncols A,
           elems = take ((hi - lo) * ncols A) (drop (lo * ncols A) (elems A))\<rparr>"
  using assms by (simp add: rows_slice_def Let_def min_absorb1)

lemma rows_slice_wf:
  assumes "wf_array2 A" "lo \<le> hi" "hi \<le> nrows A"
  shows "wf_array2 (rows_slice A lo hi)"
proof -
  have "hi * ncols A \<le> nrows A * ncols A" using assms(3) by (rule mult_le_mono1)
  then have "hi * ncols A - lo * ncols A \<le> nrows A * ncols A - lo * ncols A"
    by (rule diff_le_mono)
  then have "(hi - lo) * ncols A \<le> length (elems A) - lo * ncols A"
    using assms(1) by (simp only: wf_array2_def diff_mult_distrib)
  then show ?thesis
    using assms(2,3) by (simp add: rows_slice_in_range wf_array2_def)
qed

lemma rows_slice_row:
  assumes "wf_array2 A" "lo \<le> hi" "hi \<le> nrows A" "r < hi - lo"
  shows "row (rows_slice A lo hi) r = row A (lo + r)"
proof -
  have "entry (rows_slice A lo hi) r c = entry A (lo + r) c" if c: "c < ncols A" for c
  proof -
    have "r * ncols A + c < (hi - lo) * ncols A"
    proof -
      have "r * ncols A + c < r * ncols A + ncols A" using c by simp
      also have "\<dots> = Suc r * ncols A" by simp
      also have "\<dots> \<le> (hi - lo) * ncols A" using assms(4) by (intro mult_le_mono1) simp
      finally show ?thesis .
    qed
    moreover have "lo * ncols A + (r * ncols A + c) < length (elems A)"
    proof -
      have "lo * ncols A + (r * ncols A + c) < lo * ncols A + (hi - lo) * ncols A"
        using calculation by simp
      also have "\<dots> = hi * ncols A" using assms(2) by (simp add: add_mult_distrib [symmetric])
      also have "\<dots> \<le> nrows A * ncols A" using assms(3) by (rule mult_le_mono1)
      finally show ?thesis using assms(1) by (simp add: wf_array2_def)
    qed
    ultimately show ?thesis
      using assms(2,3) by (simp add: rows_slice_in_range entry_def add_mult_distrib add.assoc)
  qed
  then show ?thesis using assms(2,3) by (simp add: row_def rows_slice_in_range)
qed

text \<open>
  C10. For a well-formed source of \<open>L\<close> rows and \<open>0 \<le> i < L - 1\<close>, with
  \<open>s = min(args_bptt, L - 1 - i)\<close>: \<open>get_batch\<close> returns as data the rows \<open>i, \<dots>, i + s - 1\<close>
  and as target the rows \<open>i + 1, \<dots>, i + s\<close> laid end to end, so row \<open>r\<close> of the target is row
  \<open>r + 1\<close> after row \<open>r\<close> of the data in the source; \<open>s \<ge> 1\<close> when \<open>args_bptt \<ge> 1\<close> (it is 35);
  and both slices end within the \<open>L\<close> rows.
\<close>

theorem get_batch_shifted:
  assumes "wf_array2 source" and "i + 1 < nrows source"
  shows "\<exists>data target. get_batch a source i = (data, target)
           \<and> seq_len_of a source i = min (args_bptt a) (nrows source - 1 - i)
           \<and> nrows data = seq_len_of a source i \<and> ncols data = ncols source \<and> wf_array2 data
           \<and> (\<forall>r < seq_len_of a source i. row data r = row source (i + r))
           \<and> target = concat (map (row source) [i + 1 ..< i + 1 + seq_len_of a source i])
           \<and> (\<forall>r < seq_len_of a source i.
                 take (ncols source) (drop (r * ncols source) target) = row source (i + r + 1))
           \<and> (1 \<le> args_bptt a \<longrightarrow> 1 \<le> seq_len_of a source i)
           \<and> 1 \<le> seq_len_of notebook_args source i
           \<and> i + seq_len_of a source i \<le> nrows source - 1
           \<and> i + 1 + seq_len_of a source i \<le> nrows source"
proof -
  let ?s = "seq_len_of a source i"
  let ?c = "ncols source"
  let ?data = "rows_slice source i (i + ?s)"
  let ?tg = "rows_slice source (i + 1) (i + 1 + ?s)"
  have s_le: "?s \<le> nrows source - 1 - i" by (simp add: seq_len_of_def)
  have b1: "i + ?s \<le> nrows source - 1" and b2: "i + 1 + ?s \<le> nrows source"
    using s_le assms(2) by simp_all
  have b1': "i + ?s \<le> nrows source" using b1 by simp
  have pos: "1 \<le> args_bptt a \<longrightarrow> 1 \<le> ?s"
    using assms(2) by (auto simp: seq_len_of_def)
  have pos35: "1 \<le> seq_len_of notebook_args source i"
    using assms(2) by (auto simp: seq_len_of_def notebook_args_def)
  have gb: "get_batch a source i = (?data, elems ?tg)"
    by (simp add: get_batch_def Let_def)
  have d_shape: "nrows ?data = ?s" "ncols ?data = ?c"
    using b1' by (simp_all add: rows_slice_in_range)
  have d_wf: "wf_array2 ?data"
    using assms(1) b1' by (intro rows_slice_wf) simp_all
  have d_rows: "\<forall>r < ?s. row ?data r = row source (i + r)"
    using assms(1) b1' by (simp add: rows_slice_row)
  have tg: "elems ?tg = concat (map (row source) [i + 1 ..< i + 1 + ?s])"
    using concat_rows [OF assms(1), of "i + 1" "i + 1 + ?s"] b2
    by (simp add: rows_slice_in_range)
  have t_wf: "wf_array2 ?tg"
    using assms(1) b2 by (intro rows_slice_wf) simp_all
  have t_shape: "nrows ?tg = ?s" "ncols ?tg = ?c"
    using b2 by (simp_all add: rows_slice_in_range)
  have t_rows: "\<forall>r < ?s. take ?c (drop (r * ?c) (elems ?tg)) = row source (i + r + 1)"
  proof (intro allI impI)
    fix r assume r: "r < ?s"
    then have "r < nrows ?tg" using t_shape by simp
    from row_take_drop [OF t_wf this]
    have "take ?c (drop (r * ?c) (elems ?tg)) = row ?tg r" using t_shape by simp
    also have "\<dots> = row source (i + 1 + r)"
      using assms(1) b2 r by (intro rows_slice_row) simp_all
    finally show "take ?c (drop (r * ?c) (elems ?tg)) = row source (i + r + 1)"
      by (simp add: add.commute add.left_commute)
  qed
  show ?thesis
    unfolding gb using d_shape d_wf d_rows tg t_rows pos pos35 b1 b2 seq_len_of_def [of a source i]
    by (intro exI [of _ ?data] exI [of _ "elems ?tg"]) (simp only: simp_thms)
qed

theorem get_batch_shifted_witness:
  "get_batch notebook_args \<lparr>nrows = 4, ncols = 2, elems = [1, 2, 3, 4, 5, 6, 7, 8 :: nat]\<rparr> 1
     = (\<lparr>nrows = 2, ncols = 2, elems = [3, 4, 5, 6]\<rparr>, [5, 6, 7, 8])
   \<and> seq_len_of notebook_args \<lparr>nrows = 4, ncols = 2, elems = [1, 2, 3, 4, 5, 6, 7, 8 :: nat]\<rparr> 1 = 2
   \<and> 1 \<le> seq_len_of notebook_args \<lparr>nrows = 4, ncols = 2, elems = [1, 2, 3, 4, 5, 6, 7, 8 :: nat]\<rparr> 1"
proof -
  let ?src = "\<lparr>nrows = 4, ncols = 2, elems = [1, 2, 3, 4, 5, 6, 7, 8 :: nat]\<rparr>"
  have wf: "wf_array2 ?src" by (simp add: wf_array2_def)
  have i: "1 + 1 < nrows ?src" by simp
  have b: "1 \<le> args_bptt notebook_args" by (simp add: notebook_args_def)
  have s: "seq_len_of notebook_args ?src 1 = 2" by (simp add: seq_len_of_def notebook_args_def)
  have g: "get_batch notebook_args ?src 1 = (\<lparr>nrows = 2, ncols = 2, elems = [3, 4, 5, 6]\<rparr>, [5, 6, 7, 8])"
    by (simp add: get_batch_def seq_len_of_def notebook_args_def rows_slice_def Let_def)
  from get_batch_shifted [OF wf i, of notebook_args] b
  have "1 \<le> seq_len_of notebook_args ?src 1" by blast
  with g s show ?thesis by blast
qed

section \<open>Reported loss and perplexity\<close>

text \<open>
  \<open>eval_loss\<close> returns the sum of the losses of all predictions divided by their number
  (and ends in ZeroDivisionError when there is no prediction, that is when the source has
  fewer than two rows).
\<close>

lemma eval_loop_sums:
  "eval_loop net a m src is total_L ntotal hidden =
     (total_L + sum_list (batch_losses net a m src is hidden),
      ntotal + length (batch_losses net a m src is hidden))"
  by (induction "is" arbitrary: total_L ntotal hidden)
     (simp_all add: Let_def split: prod.splits)

lemma eval_loss_average:
  assumes "args_bptt a \<noteq> 0"
  shows "eval_loss net a m hidden0 src =
     (let Ls = batch_losses net a m src (py_range (nrows src - 1) (args_bptt a)) hidden0
      in if Ls = [] then Inl ZeroDivisionError else Inr (sum_list Ls / real (length Ls)))"
  using assms by (simp add: eval_loss_def eval_loop_sums Let_def)

lemma zeros_array_simps:
  "nrows (zeros_array r c) = r" "ncols (zeros_array r c) = c" "wf_array2 (zeros_array r c)"
  by (simp_all add: zeros_array_def wf_array2_def)

lemma get_batch_target_length:
  assumes "wf_array2 src" "i + 1 < nrows src"
  shows "length (snd (get_batch a src i)) = seq_len_of a src i * ncols src"
proof -
  let ?s = "seq_len_of a src i"
  have "?s \<le> nrows src - 1 - i" by (simp add: seq_len_of_def)
  then have b: "i + 1 + ?s \<le> nrows src" using assms(2) by simp
  have "wf_array2 (rows_slice src (i + 1) (i + 1 + ?s))"
    using assms(1) b by (intro rows_slice_wf) simp_all
  then have "length (elems (rows_slice src (i + 1) (i + 1 + ?s))) = ?s * ncols src"
    using b by (simp add: wf_array2_def rows_slice_in_range)
  then show ?thesis by (simp add: get_batch_def Let_def)
qed

lemma train_batches_no_line:
  assumes "args_log_interval a \<noteq> 0"
    and "\<forall>p \<in> set ps. \<not> (fst p mod args_log_interval a = 0 \<and> 0 < fst p)"
  shows "train_batches unit_loss_step a e src (ps @ rest) () () total_L out
       = train_batches unit_loss_step a e src rest () ()
           (total_L + real (sum_list (map (\<lambda>p. length (snd (get_batch a src (snd p)))) ps))) out"
  using assms(2)
proof (induction ps arbitrary: total_L)
  case Nil
  show ?case by simp
next
  case (Cons p ps)
  obtain ib i where p: "p = (ib, i)" by (cases p)
  obtain d t where g: "get_batch a src i = (d, t)" by (cases "get_batch a src i")
  have nolog: "\<not> (ib mod args_log_interval a = 0 \<and> 0 < ib)" using Cons.prems p by simp
  have "train_batches unit_loss_step a e src ((p # ps) @ rest) () () total_L out
        = train_batches unit_loss_step a e src (ps @ rest) () () (total_L + real (length t)) out"
    using assms(1) nolog by (auto simp: p g unit_loss_step_def Let_def sum_list_replicate)
  also have "\<dots> = train_batches unit_loss_step a e src rest () ()
           (total_L + real (length t) + real (sum_list (map (\<lambda>p. length (snd (get_batch a src (snd p)))) ps))) out"
    using Cons.prems by (intro Cons.IH) simp
  finally show ?case by (simp add: p g add.assoc)
qed

lemma py_range_notebook: "py_range 3536 35 = map (\<lambda>k. k * 35) [0..<102]"
  by (simp add: py_range_def)

lemma enumerate_map_upt: "enumerate 0 (map f [0..<n]) = map (\<lambda>k. (k, f k)) [0..<n]"
  by (rule nth_equalityI) (simp_all add: nth_enumerate_eq)

lemma upt_102: "[0..<102] = [0..<100] @ [100, 101]"
proof -
  have "[0..<100 + 2] = [0..<100] @ [100..<100 + 2]" by (rule upt_add_eq_append) simp
  moreover have "[100..<100 + 2] = [100, 101::nat]" by (simp add: upt_rec [of _ "numeral _"])
  ultimately show ?thesis by simp
qed

lemma full_batch:
  assumes "k \<le> 100"
  shows "length (snd (get_batch notebook_args (zeros_array 3537 32) (k * 35))) = 1120"
proof -
  have i: "k * 35 + 1 < nrows (zeros_array 3537 32)" using assms by (simp add: zeros_array_simps)
  have "seq_len_of notebook_args (zeros_array 3537 32) (k * 35) = 35"
    using assms by (simp add: seq_len_of_def notebook_args_def zeros_array_simps)
  with get_batch_target_length [OF zeros_array_simps(3) i, of notebook_args]
  show ?thesis by (simp add: zeros_array_simps)
qed

lemma last_batch:
  "length (snd (get_batch notebook_args (zeros_array 3537 32) (101 * 35))) = 32"
proof -
  have i: "101 * 35 + 1 < nrows (zeros_array 3537 32)" by (simp add: zeros_array_simps)
  have "seq_len_of notebook_args (zeros_array 3537 32) (101 * 35) = 1"
    by (simp add: seq_len_of_def notebook_args_def zeros_array_simps)
  with get_batch_target_length [OF zeros_array_simps(3) i, of notebook_args]
  show ?thesis by (simp add: zeros_array_simps)
qed

lemma train_batches_notebook:
  "train_batches unit_loss_step notebook_args e (zeros_array 3537 32)
     (enumerate 0 (py_range 3536 35)) () () 0 out
   = (None, (), out @ [Batch_line (e + 1) 100 (101 / 100) (exp (101 / 100))])"
proof -
  let ?src = "zeros_array 3537 32"
  let ?g = "\<lambda>k. (k, k * 35)"
  let ?ps = "map ?g [0..<100]"
  have a: "args_log_interval notebook_args = 100" "args_bptt notebook_args = 35"
      "args_batch_size notebook_args = 32"
    by (simp_all add: notebook_args_def)
  have "enumerate 0 (py_range 3536 35) = map ?g [0..<102]"
    unfolding py_range_notebook by (rule enumerate_map_upt)
  also have "\<dots> = ?ps @ [(100, 3500), (101, 3535)]"
    unfolding upt_102 by simp
  finally have batches: "enumerate 0 (py_range 3536 35) = ?ps @ [(100, 3500), (101, 3535)]" .
  have nolog: "\<forall>p \<in> set ?ps. \<not> (fst p mod args_log_interval notebook_args = 0 \<and> 0 < fst p)"
    by (auto simp: a)
  have "map (\<lambda>p. length (snd (get_batch notebook_args ?src (snd p)))) ?ps
          = map (\<lambda>k. length (snd (get_batch notebook_args ?src (k * 35)))) [0..<100]"
    by (simp add: o_def)
  also have "\<dots> = map (\<lambda>k. 1120) [0..<100]"
    by (rule map_cong [OF refl]) (simp add: full_batch)
  also have "\<dots> = replicate 100 1120"
    by (simp add: map_replicate_const)
  finally have total:
    "sum_list (map (\<lambda>p. length (snd (get_batch notebook_args ?src (snd p)))) ?ps) = 112000"
    by (simp only: sum_list_replicate) simp
  obtain d1 t1 where g1: "get_batch notebook_args ?src 3500 = (d1, t1)"
    by (cases "get_batch notebook_args ?src 3500")
  obtain d2 t2 where g2: "get_batch notebook_args ?src 3535 = (d2, t2)"
    by (cases "get_batch notebook_args ?src 3535")
  have l1: "length t1 = 1120" using full_batch [of 100] g1 by simp
  have l2: "length t2 = 32" using last_batch g2 by simp
  have "train_batches unit_loss_step notebook_args e ?src
          (?ps @ [(100, 3500), (101, 3535)]) () () 0 out
        = train_batches unit_loss_step notebook_args e ?src
            [(100, 3500), (101, 3535)] () () (0 + real 112000) out"
    using train_batches_no_line [of notebook_args ?ps e ?src _ 0 out] nolog a(1) total
    by simp
  also have "\<dots> = (None, (), out @ [Batch_line (e + 1) 100 (101 / 100) (exp (101 / 100))])"
    by (simp add: a g1 g2 l1 l2 unit_loss_step_def Let_def sum_list_replicate)
  finally show ?thesis unfolding batches .
qed

lemma eval_loss_notebook:
  "eval_loss unit_loss_net notebook_args m () (zeros_array 2 32) = Inr 1"
proof -
  have r: "py_range (Suc 0) 35 = [0]" by (simp add: py_range_def)
  have i: "0 + 1 < nrows (zeros_array 2 32)" by (simp add: zeros_array_simps)
  have "seq_len_of notebook_args (zeros_array 2 32) 0 = 1"
    by (simp add: seq_len_of_def notebook_args_def zeros_array_simps)
  with get_batch_target_length [OF zeros_array_simps(3) i, of notebook_args]
  have l: "length (snd (get_batch notebook_args (zeros_array 2 32) 0)) = 32"
    by (simp add: zeros_array_simps)
  obtain d t where g: "get_batch notebook_args (zeros_array 2 32) 0 = (d, t)"
    by (cases "get_batch notebook_args (zeros_array 2 32) 0")
  have "args_bptt notebook_args = 35" by (simp add: notebook_args_def)
  then show ?thesis
    using l by (simp add: eval_loss_def zeros_array_simps r g unit_loss_net_def sum_list_replicate)
qed

text \<open>
  C8 on a run of \<open>train\<close> with the settings of the notebook (\<open>args_bptt = 35\<close>,
  \<open>args_batch_size = 32\<close>, \<open>args_log_interval = 100\<close>, two epochs), a training array of 3537
  rows (102 batches) and validation and test arrays of 2 rows. Every prediction has loss 1,
  so the average negative log-likelihood of any set of predictions is 1 and its
  exponential is \<open>exp 1\<close>; the validation and the test line show that. The batch line,
  printed at \<open>ibatch = 100\<close>, shows loss 1.01 and perplexity \<open>exp 1.01\<close>: \<open>total_L\<close> then holds
  the losses of the 101 batches \<open>0, \<dots>, 100\<close>, and the divisor accounts for 100. In the second
  epoch the validation loss does not improve and the run ends in the UnboundLocalError of
  the \<^verbatim>\<open>else\<close> branch.
\<close>

theorem train_first_log_line:
  "train unit_loss_step unit_loss_net notebook_args ()
     (zeros_array 3537 32) (zeros_array 2 32) (zeros_array 2 32) ()
   = (Some UnboundLocalError,
      [Batch_line 1 100 (101 / 100) (exp (101 / 100)), Epoch_line 1 1 (exp 1), Test_line 1 (exp 1),
       Batch_line 2 100 (101 / 100) (exp (101 / 100)), Epoch_line 2 1 (exp 1)])
   \<and> exp (101 / 100) \<noteq> exp (1::real)"
proof -
  have a: "args_bptt notebook_args = 35" "args_epochs notebook_args = 2"
    by (simp_all add: notebook_args_def)
  have n: "nrows (zeros_array 3537 32) - Suc 0 = 3536" by (simp add: zeros_array_simps)
  have e: "[0..<2] = [0, Suc 0]" by (simp add: upt_rec [of _ "numeral _"])
  show ?thesis
    unfolding train_def a e
    by (simp add: a n train_batches_notebook eval_loss_notebook del: train_batches.simps)
qed

end
